theory Spec2Isabelle
  imports Complex_Main "HOL-Library.Char_ord" "HOL-Library.List_Lexorder"
begin

section \<open>Python values, exceptions and the logger\<close>

text \<open>
  The module \<^verbatim>\<open>parastell/magnet_coils.py\<close> is embedded function by function.
  Floating-point numbers are modelled by the real numbers they approximate; every
  exception the Python code can raise is a value of \<open>py_error\<close>.
\<close>

datatype py_error = ValueError | TypeError | IndexError | AttributeError | ZeroDivisionError

text \<open>The entries of a \<^verbatim>\<open>cross_section\<close> list: a string or a number.\<close>

datatype pyval = Str string | Num real

text \<open>
  The messages handed to the logger, by the place that builds them:
  \<^item> \<open>Msg_toroidal_extent\<close>: 'Toroidal extent cannot exceed 360.0 degrees.'
  \<^item> \<open>Msg_circle_format\<close>: 'Format of list defining circular cross-section must be ...'
  \<^item> \<open>Msg_circle_dims\<close>: 'More than one length dimension has been defined for cross_section. ...'
  \<^item> \<open>Msg_rectangle_format\<close>: 'Format of list defining rectangular cross-section must be ...'
  \<^item> \<open>Msg_shape\<close>: 'Magnet cross-section must be either a circle or rectangle. ...'
\<close>

datatype message =
  Msg_toroidal_extent | Msg_circle_format | Msg_circle_dims | Msg_rectangle_format | Msg_shape

datatype log_entry = Log_error message | Log_warning message

text \<open>An f-string is kept as the list of its literal and interpolated parts.\<close>

datatype fpart = Lit string | Val pyval

section \<open>The configuration state of a MagnetSet\<close>

text \<open>
  The attributes of \<^verbatim>\<open>MagnetSet\<close> that its constructor and property setters assign.
  An attribute that has not been assigned yet is \<open>None\<close>.  The fields \<open>priv_cross_section\<close>
  and \<open>priv_toroidal_extent\<close> are the attributes \<^verbatim>\<open>_cross_section\<close> and
  \<^verbatim>\<open>_toroidal_extent\<close>; \<open>logged\<close> collects the calls made on \<^verbatim>\<open>_logger\<close>.
\<close>

record magnet_set =
  logged :: "log_entry list"
  coils_file :: "string option"
  priv_cross_section :: "pyval list option"
  priv_toroidal_extent :: "real option"
  shape :: "pyval option"
  shape_str :: "fpart list option"
  mag_len :: "pyval option"
  start_line :: "int option"
  sample_mod :: "int option"
  scale :: "real option"
  mat_tag :: "string option"

text \<open>
  A method that mutates the object and may raise returns \<open>Inr self'\<close> on normal return and
  \<open>Inl (e, self')\<close> when it raises \<open>e\<close>, where \<open>self'\<close> is the object as the method left it.
\<close>

type_synonym 'a raising = "(py_error \<times> magnet_set) + 'a"

text \<open>\<^verbatim>\<open>e = ValueError(msg); self._logger.error(e.args[0]); raise e\<close>\<close>

definition log_and_raise :: "message \<Rightarrow> magnet_set \<Rightarrow> magnet_set raising" where
  "log_and_raise msg self = Inl (ValueError, self\<lparr>logged := logged self @ [Log_error msg]\<rparr>)"

text \<open>
  Python's \<^verbatim>\<open>max(a, b)\<close>: \<open>b\<close> when \<open>b > a\<close>, otherwise \<open>a\<close>; comparing a string
  with a number raises TypeError.
\<close>

fun py_max :: "pyval \<Rightarrow> pyval \<Rightarrow> py_error + pyval" where
  "py_max (Num a) (Num b) = Inr (if b > a then Num b else Num a)"
| "py_max (Str a) (Str b) = Inr (if b > a then Str b else Str a)"
| "py_max (Num a) (Str b) = Inl TypeError"
| "py_max (Str a) (Num b) = Inl TypeError"

text \<open>\<^verbatim>\<open>MagnetSet._extract_cross_section\<close>\<close>

definition extract_cross_section :: "magnet_set \<Rightarrow> magnet_set raising" where
  "extract_cross_section self =
     (case priv_cross_section self of
        None \<Rightarrow> Inl (AttributeError, self)
      | Some cs \<Rightarrow>
          (case cs of
             [] \<Rightarrow> Inl (IndexError, self)
           | shp # _ \<Rightarrow>
               if shp = Str ''circle'' then
                 (if length cs = 1 then log_and_raise Msg_circle_format self
                  else
                    let self1 =
                          (if length cs > 2
                           then self\<lparr>logged := logged self @ [Log_warning Msg_circle_dims]\<rparr>
                           else self);
                        m = cs ! 1
                    in Inr (self1\<lparr>shape := Some shp,
                                  shape_str := Some [Val shp, Lit '' radius '', Val m],
                                  mag_len := Some m\<rparr>))
               else if shp = Str ''rectangle'' then
                 (if length cs \<noteq> 3 then log_and_raise Msg_rectangle_format self
                  else
                    let width = cs ! 1; thickness = cs ! 2
                    in (case py_max width thickness of
                          Inl e \<Rightarrow> Inl (e, self)
                        | Inr m \<Rightarrow>
                            Inr (self\<lparr>shape := Some shp,
                                      shape_str := Some [Val shp, Lit '' width '', Val thickness,
                                                         Lit '' height '', Val width],
                                      mag_len := Some m\<rparr>)))
               else log_and_raise Msg_shape self))"

text \<open>The setter of the property \<^verbatim>\<open>cross_section\<close>.\<close>

definition cross_section_setter :: "magnet_set \<Rightarrow> pyval list \<Rightarrow> magnet_set raising" where
  "cross_section_setter self shp =
     extract_cross_section (self\<lparr>priv_cross_section := Some shp\<rparr>)"

text \<open>\<^verbatim>\<open>np.deg2rad\<close>\<close>

definition deg2rad :: "real \<Rightarrow> real" where
  "deg2rad angle = angle * (pi / 180)"

text \<open>The setter of the property \<^verbatim>\<open>toroidal_extent\<close>.\<close>

definition toroidal_extent_setter :: "magnet_set \<Rightarrow> real \<Rightarrow> magnet_set raising" where
  "toroidal_extent_setter self angle =
     (let self1 = self\<lparr>priv_toroidal_extent := Some (deg2rad angle)\<rparr>
      in if deg2rad angle > 360.0 then log_and_raise Msg_toroidal_extent self1
         else Inr self1)"

text \<open>
  The keyword arguments \<^verbatim>\<open>__init__\<close> reads: of \<^verbatim>\<open>**kwargs\<close> only the keys
  'start_line', 'sample_mod', 'scale' and 'mat_tag' are used.
\<close>

record kwargs =
  kw_start_line :: "int option"
  kw_sample_mod :: "int option"
  kw_scale :: "real option"
  kw_mat_tag :: "string option"

definition m2cm :: real where
  "m2cm = 100"

text \<open>The object before \<^verbatim>\<open>__init__\<close> has assigned anything; the logger is set first.\<close>

definition new_object :: magnet_set where
  "new_object =
     \<lparr>logged = [], coils_file = None, priv_cross_section = None, priv_toroidal_extent = None,
      shape = None, shape_str = None, mag_len = None, start_line = None, sample_mod = None,
      scale = None, mat_tag = None\<rparr>"

definition override :: "'a option \<Rightarrow> 'a \<Rightarrow> 'a option" where
  "override kw dflt = (case kw of None \<Rightarrow> Some dflt | Some v \<Rightarrow> Some v)"

text \<open>
  \<^verbatim>\<open>MagnetSet.__init__\<close>.  An exception leaves the constructor, and no object is
  returned.  The constructor reads no file and no filament: it ends with the call that
  initialises the CAD kernel, which is outside the model, and the filaments are parsed
  later, by \<^verbatim>\<open>build_magnet_coils\<close>.
\<close>

definition MagnetSet_init :: "string \<Rightarrow> pyval list \<Rightarrow> real \<Rightarrow> kwargs \<Rightarrow> py_error + magnet_set" where
  "MagnetSet_init file cs extent kw =
     (case cross_section_setter (new_object\<lparr>coils_file := Some file\<rparr>) cs of
        Inl (e, _) \<Rightarrow> Inl e
      | Inr self1 \<Rightarrow>
          (case toroidal_extent_setter self1 extent of
             Inl (e, _) \<Rightarrow> Inl e
           | Inr self2 \<Rightarrow>
               Inr (self2\<lparr>start_line := override (kw_start_line kw) 3,
                          sample_mod := override (kw_sample_mod kw) 1,
                          scale := override (kw_scale kw) m2cm,
                          mat_tag := override (kw_mat_tag kw) ''magnets''\<rparr>)))"

section \<open>Parsing the coil file\<close>

text \<open>
  Python's exceptions propagate through sequential code; \<open>bind_err\<close> sequences two
  steps and stops at the first that raises.
\<close>

definition bind_err :: "'e + 'a \<Rightarrow> ('a \<Rightarrow> 'e + 'b) \<Rightarrow> 'e + 'b" where
  "bind_err m f = (case m of Inl e \<Rightarrow> Inl e | Inr v \<Rightarrow> f v)"

text \<open>
  The characters \<^verbatim>\<open>str.split()\<close> and \<^verbatim>\<open>str.strip()\<close> treat as white space, among
  the ASCII characters: tab, line feed, vertical tab, form feed, carriage return, the
  separators 0x1C to 0x1F, and the space.
\<close>

definition is_space :: "char \<Rightarrow> bool" where
  "is_space c =
     (c \<in> set [CHR 0x09, CHR 0x0A, CHR 0x0B, CHR 0x0C, CHR 0x0D,
                CHR 0x1C, CHR 0x1D, CHR 0x1E, CHR 0x1F, CHR 0x20])"

text \<open>
  \<^verbatim>\<open>line.strip().split()\<close>: the maximal runs of characters that are not white space.
  \<open>split_from cur s\<close> carries the token being read, reversed.
\<close>

fun split_from :: "string \<Rightarrow> string \<Rightarrow> string list" where
  "split_from cur [] = (if cur = [] then [] else [rev cur])"
| "split_from cur (c # cs) =
     (if is_space c
      then (if cur = [] then split_from [] cs else rev cur # split_from [] cs)
      else split_from (c # cur) cs)"

definition split_ws :: "string \<Rightarrow> string list" where
  "split_ws line = split_from [] line"

text \<open>\<^verbatim>\<open>columns[i]\<close>: IndexError past the end of the list.\<close>

definition column :: "string list \<Rightarrow> nat \<Rightarrow> py_error + string" where
  "column columns i = (if i < length columns then Inr (columns ! i) else Inl IndexError)"

text \<open>
  \<^verbatim>\<open>float(s)\<close>: Python's conversion of a string is a parameter \<open>float_of\<close> of the model,
  \<open>None\<close> where Python raises ValueError.
\<close>

definition py_float :: "(string \<Rightarrow> real option) \<Rightarrow> string \<Rightarrow> py_error + real" where
  "py_float float_of s = (case float_of s of None \<Rightarrow> Inl ValueError | Some v \<Rightarrow> Inr v)"

text \<open>A point \<^verbatim>\<open>[x, y, z]\<close> and a filament, a sequence of points.\<close>

type_synonym point = "real \<times> real \<times> real"
type_synonym filament = "point list"

definition px :: "point \<Rightarrow> real" where "px p = fst p"
definition py :: "point \<Rightarrow> real" where "py p = fst (snd p)"
definition pz :: "point \<Rightarrow> real" where "pz p = snd (snd p)"

text \<open>
  The loop of \<^verbatim>\<open>_extract_filaments\<close> over the data lines, with its variables
  \<open>coords\<close>, \<open>filaments\<close> and \<open>sample_counter\<close>.  A line whose first token is 'end' leaves
  the loop.
\<close>

fun extract_loop ::
  "(string \<Rightarrow> real option) \<Rightarrow> real \<Rightarrow> int \<Rightarrow> string list \<Rightarrow>
   point list \<Rightarrow> filament list \<Rightarrow> int \<Rightarrow> py_error + filament list" where
  "extract_loop float_of scl smod [] coords fils counter = Inr fils"
| "extract_loop float_of scl smod (line # data) coords fils counter =
     (let columns = split_ws line in
      bind_err (column columns 0) (\<lambda>c0.
        if c0 = ''end'' then Inr fils
        else
          bind_err (py_float float_of c0) (\<lambda>x0.
          bind_err (column columns 1) (\<lambda>c1.
          bind_err (py_float float_of c1) (\<lambda>y0.
          bind_err (column columns 2) (\<lambda>c2.
          bind_err (py_float float_of c2) (\<lambda>z0.
          bind_err (column columns 3) (\<lambda>c3.
          bind_err (py_float float_of c3) (\<lambda>s.
            let p = (x0 * scl, y0 * scl, z0 * scl) in
            if s \<noteq> 0 then
              (if smod = 0 then Inl ZeroDivisionError
               else extract_loop float_of scl smod data
                      (if counter mod smod = 0 then coords @ [p] else coords) fils (counter + 1))
            else extract_loop float_of scl smod data [] (fils @ [coords @ [p]]) 0)))))))))"

text \<open>\<^verbatim>\<open>xs[i:]\<close> for a Python list: a negative index counts from the end.\<close>

definition slice_from :: "'a list \<Rightarrow> int \<Rightarrow> 'a list" where
  "slice_from xs i = (if i < 0 then drop (nat (int (length xs) + i)) xs else drop (nat i) xs)"

text \<open>
  \<^verbatim>\<open>MagnetSet._extract_filaments\<close>, on the lines \<^verbatim>\<open>file.readlines()\<close> returns.
  The result is the list \<open>filaments\<close> the method hands to \<^verbatim>\<open>np.array\<close>.
\<close>

definition extract_filaments ::
  "(string \<Rightarrow> real option) \<Rightarrow> magnet_set \<Rightarrow> string list \<Rightarrow> py_error + filament list" where
  "extract_filaments float_of self file_lines =
     (case (start_line self, sample_mod self, scale self) of
        (Some sl, Some smod, Some scl) \<Rightarrow>
          extract_loop float_of scl smod (slice_from file_lines sl) [] [] 0
      | _ \<Rightarrow> Inl AttributeError)"

section \<open>Filtering, sorting and reordering the filaments\<close>

text \<open>
  \<^verbatim>\<open>np.arctan2(y, x)\<close>, the angle of the point \<open>(x, y)\<close> in \<open>(-\<pi>, \<pi>]\<close>; a zero is
  the positive zero.
\<close>

definition arctan2 :: "real \<Rightarrow> real \<Rightarrow> real" where
  "arctan2 y x =
     (if x > 0 then arctan (y / x)
      else if x < 0 then (if y \<ge> 0 then arctan (y / x) + pi else arctan (y / x) - pi)
      else if y > 0 then pi / 2
      else if y < 0 then - (pi / 2)
      else 0)"

text \<open>Python's \<^verbatim>\<open>a % b\<close> on floats, for a positive \<open>b\<close>.\<close>

definition py_mod :: "real \<Rightarrow> real \<Rightarrow> real" where
  "py_mod a b = a - b * of_int \<lfloor>a / b\<rfloor>"

text \<open>\<^verbatim>\<open>(phi + 2*np.pi) % (2*np.pi)\<close>\<close>

definition positive_angle :: "real \<Rightarrow> real" where
  "positive_angle phi = py_mod (phi + 2 * pi) (2 * pi)"

text \<open>The toroidal angle \<^verbatim>\<open>np.arctan2(p[1], p[0])\<close> of a point.\<close>

definition phi_of :: "point \<Rightarrow> real" where
  "phi_of p = arctan2 (py p) (px p)"

text \<open>\<^verbatim>\<open>np.average(fil, axis=0)\<close>, of a filament with at least one point.\<close>

definition np_average :: "filament \<Rightarrow> point" where
  "np_average fil =
     (sum_list (map px fil) / real (length fil),
      sum_list (map py fil) / real (length fil),
      sum_list (map pz fil) / real (length fil))"

text \<open>
  The tolerance and the bounds of the toroidal window, from \<open>mag_len\<close>, the average radial
  distance and \<open>_toroidal_extent\<close>.
\<close>

definition tol :: "real \<Rightarrow> real \<Rightarrow> real" where
  "tol mlen avg = 2 * arctan2 mlen avg"

definition min_rad :: "real \<Rightarrow> real \<Rightarrow> real" where
  "min_rad mlen avg = 2 * pi - tol mlen avg"

definition max_rad :: "real \<Rightarrow> real \<Rightarrow> real \<Rightarrow> real" where
  "max_rad mlen avg extent = extent + tol mlen avg"

text \<open>The normalised angles \<open>phi_pts\<close> of a filament's points, their minimum and maximum.\<close>

definition phi_pts :: "filament \<Rightarrow> real list" where
  "phi_pts fil = map (\<lambda>p. positive_angle (phi_of p)) fil"

definition min_phi :: "filament \<Rightarrow> real" where
  "min_phi fil = Min (set (phi_pts fil))"

definition max_phi :: "filament \<Rightarrow> real" where
  "max_phi fil = Max (set (phi_pts fil))"

text \<open>The condition under which the first loop keeps a filament.\<close>

definition overlaps :: "real \<Rightarrow> real \<Rightarrow> real \<Rightarrow> filament \<Rightarrow> bool" where
  "overlaps mlen avg extent fil =
     ((min_phi fil \<ge> min_rad mlen avg \<or> min_phi fil \<le> max_rad mlen avg extent) \<or>
      (max_phi fil \<ge> min_rad mlen avg \<or> max_phi fil \<le> max_rad mlen avg extent))"

text \<open>
  \<^verbatim>\<open>[x for _, x in sorted(zip(phi_arr, fils))]\<close>.  The pairs are compared as tuples:
  where two angles are equal the comparison goes on to the filaments, which are arrays
  of more than one element, and the truth value of their comparison raises ValueError.
  A sort has to compare two entries of equal angle with each other, so the call raises
  exactly when the angles are not pairwise distinct.
\<close>

definition sorted_zip :: "real list \<Rightarrow> 'a list \<Rightarrow> py_error + 'a list" where
  "sorted_zip phi_arr fils =
     (if distinct phi_arr then Inr (map snd (sort_key fst (zip phi_arr fils)))
      else Inl ValueError)"

text \<open>\<^verbatim>\<open>(point[0]**2 + point[1]**2)**0.5\<close>\<close>

definition radius :: "point \<Rightarrow> real" where
  "radius p = sqrt ((px p)\<^sup>2 + (py p)\<^sup>2)"

text \<open>
  \<^verbatim>\<open>a / b < 0\<close> on floats of numpy: a division by (positive) zero gives an infinity
  of the sign of \<open>a\<close>, or nan for \<open>0 / 0\<close>, and raises nothing.
\<close>

definition ratio_negative :: "real \<Rightarrow> real \<Rightarrow> bool" where
  "ratio_negative a b = (if b = 0 then a < 0 else a / b < 0)"

text \<open>
  The inner loop over \<^verbatim>\<open>enumerate(filament[0:-1])\<close>: \<open>best\<close> holds
  \<open>(min_z_index, min_z_radius)\<close>, both \<open>None\<close> at first, and \<open>i\<close> is the index of the
  first point of the list.
\<close>

fun scan_start :: "nat \<Rightarrow> filament \<Rightarrow> (nat \<times> real) option \<Rightarrow> (nat \<times> real) option" where
  "scan_start i (point # next_point # rest) best =
     scan_start (Suc i) (next_point # rest)
       (if ratio_negative (pz point) (pz next_point) then
          (case best of
             None \<Rightarrow> Some (i, radius point)
           | Some (min_z_index, min_z_radius) \<Rightarrow>
               if min_z_radius < radius point then Some (i, radius point) else best)
        else best)"
| "scan_start i [point] best = best"
| "scan_start i [] best = best"

text \<open>
  \<^verbatim>\<open>reordered_filament[np.sort(idx)]\<close> for the indices \<open>idx\<close> of \<^verbatim>\<open>np.unique\<close>: the rows
  in their order, each at its first occurrence only.  \<open>seen\<close> holds the rows passed.
\<close>

fun unique_rows :: "'a list \<Rightarrow> 'a list \<Rightarrow> 'a list" where
  "unique_rows seen [] = []"
| "unique_rows seen (x # xs) =
     (if x \<in> set seen then unique_rows seen xs else x # unique_rows (x # seen) xs)"

text \<open>
  The body of the loop that changes the start point of one filament.  Without a
  z-crossing \<open>min_z_index\<close> is still \<open>None\<close> at \<^verbatim>\<open>filament[min_z_index,2]\<close>, which reads
  row 2 (IndexError when there is none), and \<^verbatim>\<open>min_z_index+1\<close> raises TypeError.
\<close>

definition reorder :: "filament \<Rightarrow> py_error + filament" where
  "reorder filament =
     (case scan_start 0 filament None of
        None \<Rightarrow> if length filament < 3 then Inl IndexError else Inl TypeError
      | Some (min_z_index, min_z_radius) \<Rightarrow>
          let reordered = drop min_z_index filament @ take min_z_index filament;
              flipped =
                (if pz (filament ! min_z_index) > pz (filament ! (min_z_index + 1))
                 then rev reordered else reordered);
              uniq = unique_rows [] flipped
          in Inr (uniq @ [hd uniq]))"

text \<open>
  \<^verbatim>\<open>filtered_filaments[filament_index] = reordered_filament\<close>: the row of the array
  has the length of the filament read; numpy broadcasts a single point to it and
  raises ValueError for any other length.
\<close>

definition assign_row :: "filament \<Rightarrow> filament \<Rightarrow> py_error + filament" where
  "assign_row row new =
     (if length new = length row then Inr new
      else if length new = 1 then Inr (replicate (length row) (hd new))
      else Inl ValueError)"

text \<open>The loop over the rows, stopping at the first that raises.\<close>

fun reorder_all :: "filament list \<Rightarrow> py_error + filament list" where
  "reorder_all [] = Inr []"
| "reorder_all (filament # rest) =
     bind_err (reorder filament) (\<lambda>new.
     bind_err (assign_row filament new) (\<lambda>row.
     bind_err (reorder_all rest) (\<lambda>rows. Inr (row # rows))))"

text \<open>
  \<open>filaments\<close> is a three-dimensional array when the filaments are all of one length.
  Of filaments of different lengths \<^verbatim>\<open>np.array\<close> makes an array of lists (or refuses
  them), and \<^verbatim>\<open>fil[:, 1]\<close> on a list raises TypeError.
\<close>

definition is_array :: "filament list \<Rightarrow> bool" where
  "is_array fils = list_all (\<lambda>fil. length fil = length (hd fils)) fils"

text \<open>
  \<^verbatim>\<open>MagnetSet._set_filtered_filaments\<close>, as a function of the attributes it reads
  (\<open>mag_len\<close>, \<open>average_radial_distance\<close>, \<open>_toroidal_extent\<close>, \<open>filaments\<close>) to the value
  it stores in \<open>filtered_filaments\<close>.  Filaments without points are a two-dimensional
  array, on whose rows \<^verbatim>\<open>fil[:, 1]\<close> raises IndexError; when no filament is kept,
  \<^verbatim>\<open>com_list[:, 1]\<close> raises IndexError.  The first sort takes the angles of the centres
  of mass normalised to \<open>[0, 2\<pi>)\<close>, the second takes them as \<^verbatim>\<open>np.arctan2\<close> returns
  them.  An exception leaves the method before it assigns \<open>filtered_filaments\<close>.
\<close>

definition set_filtered_filaments ::
  "real \<Rightarrow> real \<Rightarrow> real \<Rightarrow> filament list \<Rightarrow> py_error + filament list" where
  "set_filtered_filaments mlen avg extent fils =
     (if \<not> is_array fils then Inl TypeError
      else if list_ex (\<lambda>fil. fil = []) fils then Inl IndexError
      else
        let reduced_fils = filter (overlaps mlen avg extent) fils;
            com_list = map np_average reduced_fils
        in if reduced_fils = [] then Inl IndexError
           else
             bind_err (sorted_zip (map (\<lambda>com. positive_angle (phi_of com)) com_list) reduced_fils)
               (\<lambda>filtered_filaments.
             bind_err (reorder_all filtered_filaments) (\<lambda>filtered_filaments.
               sorted_zip (map (\<lambda>fil. phi_of (np_average fil)) filtered_filaments)
                 filtered_filaments)))"

text \<open>
  The toroidal window as the specification words it:
  \<open>[min_rad, 2\<pi>) \<union> [0, max_rad]\<close>.
\<close>

definition in_window :: "real \<Rightarrow> real \<Rightarrow> real \<Rightarrow> real \<Rightarrow> bool" where
  "in_window mlen avg extent phi =
     ((min_rad mlen avg \<le> phi \<and> phi < 2 * pi) \<or> (0 \<le> phi \<and> phi \<le> max_rad mlen avg extent))"

text \<open>
  The z-crossing candidates of a filament, recomputed directly: the first points of the
  consecutive pairs between which z changes sign.
\<close>

definition crossing_points :: "filament \<Rightarrow> point list" where
  "crossing_points fil =
     map fst (filter (\<lambda>(p, q). ratio_negative (pz p) (pz q)) (zip fil (tl fil)))"

text \<open>
  \<^verbatim>\<open>MagnetSet._set_average_radial_distance\<close>: the mean of the radial distances of all
  points of all filaments.
\<close>

definition set_average_radial_distance :: "filament list \<Rightarrow> real" where
  "set_average_radial_distance fils =
     sum_list (map radius (concat fils)) / real (length (concat fils))"

section \<open>Cross-section extraction\<close>

lemma extract_circle:
  "extract_cross_section (self\<lparr>priv_cross_section := Some [Str ''circle'', Num r]\<rparr>) =
     Inr (self\<lparr>priv_cross_section := Some [Str ''circle'', Num r],
               shape := Some (Str ''circle''),
               shape_str := Some [Val (Str ''circle''), Lit '' radius '', Val (Num r)],
               mag_len := Some (Num r)\<rparr>)"
  by (simp add: extract_cross_section_def Let_def)

lemma extract_rectangle:
  "extract_cross_section (self\<lparr>priv_cross_section := Some [Str ''rectangle'', Num w, Num t]\<rparr>) =
     Inr (self\<lparr>priv_cross_section := Some [Str ''rectangle'', Num w, Num t],
               shape := Some (Str ''rectangle''),
               shape_str := Some [Val (Str ''rectangle''), Lit '' width '', Val (Num t),
                                  Lit '' height '', Val (Num w)],
               mag_len := Some (Num (max w t))\<rparr>)"
  by (simp add: extract_cross_section_def Let_def max_def)

text \<open>
  C8: \<^verbatim>\<open>_extract_cross_section\<close> sets \<open>mag_len\<close> to the radius of a circular
  cross-section and to \<open>max(width, thickness)\<close> of a rectangular one; for
  \<^verbatim>\<open>["circle", 5]\<close> it is 5 and for \<^verbatim>\<open>["rectangle", 4, 2]\<close> it is 4.
\<close>

theorem extract_cross_section_mag_len:
  "(\<exists>self'. extract_cross_section (self\<lparr>priv_cross_section := Some [Str ''circle'', Num r]\<rparr>) = Inr self'
       \<and> mag_len self' = Some (Num r))
   \<and> (\<exists>self'. extract_cross_section (self\<lparr>priv_cross_section := Some [Str ''rectangle'', Num w, Num t]\<rparr>) = Inr self'
       \<and> mag_len self' = Some (Num (max w t)))
   \<and> (\<exists>self'. extract_cross_section (self\<lparr>priv_cross_section := Some [Str ''circle'', Num 5]\<rparr>) = Inr self'
       \<and> mag_len self' = Some (Num 5))
   \<and> (\<exists>self'. extract_cross_section (self\<lparr>priv_cross_section := Some [Str ''rectangle'', Num 4, Num 2]\<rparr>) = Inr self'
       \<and> mag_len self' = Some (Num 4))"
  by (simp add: extract_circle extract_rectangle)

section \<open>The setters are not atomic\<close>

lemma log_and_raise_fields:
  "log_and_raise msg self = Inl (e, self') \<Longrightarrow>
     e = ValueError \<and> priv_cross_section self' = priv_cross_section self
     \<and> priv_toroidal_extent self' = priv_toroidal_extent self
     \<and> shape self' = shape self \<and> shape_str self' = shape_str self
     \<and> mag_len self' = mag_len self"
  by (auto simp: log_and_raise_def)

lemma extract_cross_section_raises:
  assumes "extract_cross_section self = Inl (e, self')"
  shows "priv_cross_section self' = priv_cross_section self \<and> shape self' = shape self
     \<and> shape_str self' = shape_str self \<and> mag_len self' = mag_len self"
  using assms
  by (auto simp: extract_cross_section_def Let_def
      split: option.splits list.splits if_splits sum.splits dest: log_and_raise_fields)

lemma cross_section_setter_raises:
  assumes "cross_section_setter self cs = Inl (e, self')"
  shows "priv_cross_section self' = Some cs \<and> shape self' = shape self
     \<and> shape_str self' = shape_str self \<and> mag_len self' = mag_len self"
  using extract_cross_section_raises [OF assms [unfolded cross_section_setter_def]]
  by simp

lemma toroidal_extent_setter_raises:
  assumes "toroidal_extent_setter self angle = Inl (e, self')"
  shows "priv_toroidal_extent self' = Some (deg2rad angle) \<and> 360 < deg2rad angle"
  using assms
  by (auto simp: toroidal_extent_setter_def Let_def log_and_raise_def split: if_splits)

text \<open>
  C9: the validating setters are not atomic.  When the \<open>cross_section\<close> setter raises, the
  attribute \<open>_cross_section\<close> already holds the rejected list, while \<open>shape\<close>,
  \<open>shape_str\<close> and \<open>mag_len\<close> keep their previous values; when the
  \<open>toroidal_extent\<close> setter raises, \<open>_toroidal_extent\<close> already holds the rejected
  value converted to radians.
\<close>

theorem setters_not_atomic:
  "(cross_section_setter self cs = Inl (e, self') \<longrightarrow>
      priv_cross_section self' = Some cs \<and> shape self' = shape self
      \<and> shape_str self' = shape_str self \<and> mag_len self' = mag_len self)
   \<and> (toroidal_extent_setter self angle = Inl (e2, self2) \<longrightarrow>
      priv_toroidal_extent self2 = Some (deg2rad angle))"
  using cross_section_setter_raises toroidal_extent_setter_raises by blast

theorem setters_not_atomic_witness:
  "\<exists>self self1 self2.
     MagnetSet_init ''coils.txt'' [Str ''circle'', Num 5] 90
       \<lparr>kw_start_line = None, kw_sample_mod = None, kw_scale = None, kw_mat_tag = None\<rparr> = Inr self
     \<and> cross_section_setter self [Str ''triangle'', Num 1] = Inl (ValueError, self1)
     \<and> priv_cross_section self1 = Some [Str ''triangle'', Num 1]
     \<and> shape self1 = Some (Str ''circle'') \<and> mag_len self1 = Some (Num 5)
     \<and> shape_str self1 = Some [Val (Str ''circle''), Lit '' radius '', Val (Num 5)]
     \<and> toroidal_extent_setter self 36000 = Inl (ValueError, self2)
     \<and> priv_toroidal_extent self2 = Some (deg2rad 36000)"
proof -
  have a: "\<not> 360 < deg2rad 90" using pi_less_4 by (simp add: deg2rad_def)
  have b: "360 < deg2rad 36000" using pi_ge_two by (simp add: deg2rad_def)
  define kw where
    "kw = \<lparr>kw_start_line = None, kw_sample_mod = None, kw_scale = None,
            kw_mat_tag = (None :: string option)\<rparr>"
  obtain self where s: "MagnetSet_init ''coils.txt'' [Str ''circle'', Num 5] 90 kw = Inr self"
    and sh: "shape self = Some (Str ''circle'')" "mag_len self = Some (Num 5)"
      "shape_str self = Some [Val (Str ''circle''), Lit '' radius '', Val (Num 5)]"
    by (simp add: MagnetSet_init_def cross_section_setter_def extract_cross_section_def Let_def
        toroidal_extent_setter_def a)
  obtain self1 where
    c: "cross_section_setter self [Str ''triangle'', Num 1] = Inl (ValueError, self1)"
    by (simp add: cross_section_setter_def extract_cross_section_def log_and_raise_def)
  obtain self2 where t: "toroidal_extent_setter self 36000 = Inl (ValueError, self2)"
    using b by (simp add: toroidal_extent_setter_def Let_def log_and_raise_def)
  from setters_not_atomic [of self "[Str ''triangle'', Num 1]" ValueError self1
      36000 ValueError self2] c t sh s
  show ?thesis unfolding kw_def by auto
qed

section \<open>The check of the toroidal extent\<close>

lemma toroidal_extent_setter_returns:
  "deg2rad angle \<le> 360 \<Longrightarrow>
   toroidal_extent_setter self angle = Inr (self\<lparr>priv_toroidal_extent := Some (deg2rad angle)\<rparr>)"
  by (simp add: toroidal_extent_setter_def Let_def)

text \<open>
  The setter compares the extent in radians with 360: it raises exactly above
  \<open>64800 / \<pi>\<close> degrees, which is about 20626 degrees.
\<close>

lemma toroidal_extent_setter_raises_iff:
  "(\<exists>e self'. toroidal_extent_setter self angle = Inl (e, self')) \<longleftrightarrow> 64800 / pi < angle"
  by (auto simp: toroidal_extent_setter_def Let_def log_and_raise_def deg2rad_def field_simps)

text \<open>
  C1 claims that a toroidal extent of 370 degrees, or any value outside \<open>(0, 360]\<close>
  degrees, makes the constructor (the setter of \<open>toroidal_extent\<close>) raise ValueError.
  The code accepts 370 degrees: the setter and the constructor return normally with
  \<open>_toroidal_extent\<close> set to 370 degrees in radians.  It accepts -10 degrees as well.
\<close>

theorem toroidal_extent_370_accepted:
  "toroidal_extent_setter self 370 = Inr (self\<lparr>priv_toroidal_extent := Some (deg2rad 370)\<rparr>)
   \<and> (\<exists>self'. MagnetSet_init file [Str ''circle'', Num 5] 370 kw = Inr self'
         \<and> priv_toroidal_extent self' = Some (deg2rad 370))
   \<and> toroidal_extent_setter self (- 10) = Inr (self\<lparr>priv_toroidal_extent := Some (deg2rad (- 10))\<rparr>)"
proof -
  have a: "deg2rad 370 \<le> 360" using pi_less_4 by (simp add: deg2rad_def)
  have b: "deg2rad (- 10) \<le> 360" using pi_gt_zero unfolding deg2rad_def by linarith
  show ?thesis
    by (simp add: toroidal_extent_setter_returns [OF a] toroidal_extent_setter_returns [OF b]
        MagnetSet_init_def cross_section_setter_def extract_cross_section_def Let_def)
qed

section \<open>Short lines of the coil file\<close>

lemma short_line_cases:
  assumes "length cols < 4"
  shows "cols = [] \<or> (\<exists>a. cols = [a]) \<or> (\<exists>a b. cols = [a, b]) \<or> (\<exists>a b c. cols = [a, b, c])"
proof (cases cols)
  case Nil
  then show ?thesis by simp
next
  case c1: (Cons a r1)
  show ?thesis
  proof (cases r1)
    case Nil
    with c1 show ?thesis by simp
  next
    case c2: (Cons b r2)
    show ?thesis
    proof (cases r2)
      case Nil
      with c1 c2 show ?thesis by simp
    next
      case c3: (Cons c r3)
      with c1 c2 assms have "r3 = []" by simp
      with c1 c2 c3 show ?thesis by simp
    qed
  qed
qed

lemma split_two_tokens: "split_ws ''1.0 2.0'' = [''1.0'', ''2.0'']"
  by (simp add: split_ws_def is_space_def)

lemma split_one_token: "split_ws ''abc'' = [''abc'']"
  by (simp add: split_ws_def is_space_def)

lemma split_blank: "split_ws '' '' = []"
  by (simp add: split_ws_def is_space_def)

text \<open>A file of two records and the line 'end' gives one filament, scaled.\<close>

lemma extract_loop_example:
  "extract_loop (map_of [(''1.0'', 1), (''2.0'', 2), (''0.0'', 0)]) 100 1
     [''1.0 2.0 0.0 1.0'', ''2.0 1.0 0.0 0.0'', ''end''] [] [] 0
   = Inr [[(100, 200, 0), (200, 100, 0)]]"
  by (simp add: split_ws_def is_space_def column_def bind_err_def py_float_def)

text \<open>
  C10, as amended: when the loop of \<^verbatim>\<open>_extract_filaments\<close> reaches a line with fewer
  than four tokens that does not start with the token 'end', the call raises: IndexError
  when every token of the line converts to a float (a blank line has none), and
  ValueError from \<^verbatim>\<open>float\<close> otherwise.  The line is never skipped.
\<close>

theorem short_line_raises:
  assumes "length (split_ws line) < 4"
    and "split_ws line = [] \<or> hd (split_ws line) \<noteq> ''end''"
  shows "extract_loop float_of scl smod (line # data) coords fils counter =
           Inl (if list_all (\<lambda>t. float_of t \<noteq> None) (split_ws line)
                then IndexError else ValueError)"
proof -
  from short_line_cases [OF assms(1)] assms(2)
  consider "split_ws line = []"
    | a where "split_ws line = [a]" "a \<noteq> ''end''"
    | a b where "split_ws line = [a, b]" "a \<noteq> ''end''"
    | a b c where "split_ws line = [a, b, c]" "a \<noteq> ''end''"
    by auto
  then show ?thesis
  proof cases
    case 1
    then show ?thesis by (simp add: column_def bind_err_def)
  next
    case 2
    then show ?thesis
      by (auto simp: column_def bind_err_def py_float_def split: option.splits)
  next
    case 3
    then show ?thesis
      by (auto simp: column_def bind_err_def py_float_def split: option.splits)
  next
    case 4
    then show ?thesis
      by (auto simp: column_def bind_err_def py_float_def split: option.splits)
  qed
qed

theorem short_line_raises_witness:
  "length (split_ws ''1.0 2.0'') < 4 \<and> hd (split_ws ''1.0 2.0'') \<noteq> ''end'' \<and>
   extract_loop (map_of [(''1.0'', 1), (''2.0'', 2), (''0.0'', 0)]) 100 1
     [''1.0 2.0'', ''1.0 2.0 0.0 0.0''] [] [] 0 = Inl IndexError"
proof -
  have h1: "length (split_ws ''1.0 2.0'') < 4" by (simp add: split_two_tokens)
  have h2: "hd (split_ws ''1.0 2.0'') \<noteq> ''end''" by (simp add: split_two_tokens)
  then have h2': "split_ws ''1.0 2.0'' = [] \<or> hd (split_ws ''1.0 2.0'') \<noteq> ''end''" ..
  have h3: "list_all (\<lambda>t. map_of [(''1.0'', 1::real), (''2.0'', 2), (''0.0'', 0)] t \<noteq> None)
              (split_ws ''1.0 2.0'')"
    by (simp add: split_two_tokens)
  have "extract_loop (map_of [(''1.0'', 1), (''2.0'', 2), (''0.0'', 0)]) 100 1
     [''1.0 2.0'', ''1.0 2.0 0.0 0.0''] [] [] 0 = Inl IndexError"
    using short_line_raises [OF h1 h2', of "map_of [(''1.0'', 1), (''2.0'', 2), (''0.0'', 0)]"
      100 1 "[''1.0 2.0 0.0 0.0'']" "[]" "[]" 0] h3
    by (simp only: if_True)
  with h1 h2 show ?thesis by blast
qed

text \<open>
  The claim as first stated fails on the line 'abc': it has one token, which is not 'end',
  and the call raises ValueError, not IndexError.
\<close>

theorem short_line_counterexample:
  "length (split_ws ''abc'') < 4 \<and> hd (split_ws ''abc'') \<noteq> ''end'' \<and>
   extract_loop (map_of [(''1.0'', 1), (''2.0'', 2), (''0.0'', 0)]) 100 1
     [''abc''] [] [] 0 = Inl ValueError"
  by (simp add: split_one_token column_def bind_err_def py_float_def)

section \<open>The toroidal window\<close>

lemma py_mod_range: "0 < b \<Longrightarrow> 0 \<le> py_mod a b \<and> py_mod a b < b"
proof -
  assume b: "0 < b"
  have 1: "of_int \<lfloor>a / b\<rfloor> \<le> a / b" by simp
  have 2: "a / b < of_int \<lfloor>a / b\<rfloor> + 1" by linarith
  from 1 b have "of_int \<lfloor>a / b\<rfloor> * b \<le> a" by (metis pos_le_divide_eq)
  moreover from 2 b have "a < (of_int \<lfloor>a / b\<rfloor> + 1) * b" by (metis pos_divide_less_eq)
  ultimately show ?thesis by (simp add: py_mod_def algebra_simps)
qed

lemma positive_angle_range: "0 \<le> positive_angle phi \<and> positive_angle phi < 2 * pi"
  unfolding positive_angle_def by (rule py_mod_range) simp

lemma positive_angle_id: "0 \<le> phi \<Longrightarrow> phi < 2 * pi \<Longrightarrow> positive_angle phi = phi"
proof -
  assume a: "0 \<le> phi" "phi < 2 * pi"
  have "\<lfloor>(phi + 2 * pi) / (2 * pi)\<rfloor> = 1"
  proof (rule floor_unique)
    show "of_int 1 \<le> (phi + 2 * pi) / (2 * pi)" using a by (simp add: pos_le_divide_eq)
    show "(phi + 2 * pi) / (2 * pi) < of_int 1 + 1" using a by (simp add: pos_divide_less_eq)
  qed
  then show ?thesis by (simp add: positive_angle_def py_mod_def)
qed

lemma positive_angle_neg:
  "- (2 * pi) \<le> phi \<Longrightarrow> phi < 0 \<Longrightarrow> positive_angle phi = phi + 2 * pi"
proof -
  assume a: "- (2 * pi) \<le> phi" "phi < 0"
  have "\<lfloor>(phi + 2 * pi) / (2 * pi)\<rfloor> = 0"
  proof (rule floor_unique)
    show "of_int 0 \<le> (phi + 2 * pi) / (2 * pi)" using a by (simp add: pos_le_divide_eq)
    show "(phi + 2 * pi) / (2 * pi) < of_int 0 + 1" using a by (simp add: pos_divide_less_eq)
  qed
  then show ?thesis by (simp add: positive_angle_def py_mod_def)
qed

lemma phi_pts_range: "x \<in> set (phi_pts fil) \<Longrightarrow> 0 \<le> x \<and> x < 2 * pi"
  by (auto simp: phi_pts_def positive_angle_range)

lemma min_phi_in: "fil \<noteq> [] \<Longrightarrow> min_phi fil \<in> set (phi_pts fil)"
  unfolding min_phi_def by (rule Min_in) (simp_all add: phi_pts_def)

lemma max_phi_in: "fil \<noteq> [] \<Longrightarrow> max_phi fil \<in> set (phi_pts fil)"
  unfolding max_phi_def by (rule Max_in) (simp_all add: phi_pts_def)

lemma min_phi_le: "p \<in> set fil \<Longrightarrow> min_phi fil \<le> positive_angle (phi_of p)"
  unfolding min_phi_def by (rule Min_le) (auto simp: phi_pts_def)

lemma max_phi_ge: "p \<in> set fil \<Longrightarrow> positive_angle (phi_of p) \<le> max_phi fil"
  unfolding max_phi_def by (rule Max_ge) (auto simp: phi_pts_def)

lemma overlaps_iff_window:
  assumes "fil \<noteq> []"
  shows "overlaps m a e fil \<longleftrightarrow> in_window m a e (min_phi fil) \<or> in_window m a e (max_phi fil)"
  using phi_pts_range [OF min_phi_in [OF assms]] phi_pts_range [OF max_phi_in [OF assms]]
  by (auto simp: overlaps_def in_window_def)

lemma overlaps_point:
  assumes "fil \<noteq> []" "overlaps m a e fil"
  shows "\<exists>p\<in>set fil. in_window m a e (positive_angle (phi_of p))"
proof -
  from assms overlaps_iff_window
  have "in_window m a e (min_phi fil) \<or> in_window m a e (max_phi fil)" by blast
  moreover have "min_phi fil \<in> (\<lambda>p. positive_angle (phi_of p)) ` set fil"
    using min_phi_in [OF assms(1)] by (simp add: phi_pts_def)
  moreover have "max_phi fil \<in> (\<lambda>p. positive_angle (phi_of p)) ` set fil"
    using max_phi_in [OF assms(1)] by (simp add: phi_pts_def)
  ultimately show ?thesis by auto
qed

lemma not_overlaps_point:
  assumes "\<not> overlaps m a e fil" "p \<in> set fil"
  shows "\<not> in_window m a e (positive_angle (phi_of p))"
  using assms(1) min_phi_le [OF assms(2)] max_phi_ge [OF assms(2)]
  by (auto simp: overlaps_def in_window_def)

text \<open>
  The condition of the loop against the window, for one filament with at least one
  point: the filament meets the condition exactly when its smallest or its largest
  normalised angle is in the window; then one of its points is in the window, and
  otherwise none is.
\<close>

lemma overlaps_window:
  assumes "fil \<noteq> []"
  shows "(overlaps m a e fil \<longleftrightarrow>
            in_window m a e (min_phi fil) \<or> in_window m a e (max_phi fil))
     \<and> (overlaps m a e fil \<longrightarrow> (\<exists>p\<in>set fil. in_window m a e (positive_angle (phi_of p))))
     \<and> (\<not> overlaps m a e fil \<longrightarrow> (\<forall>p\<in>set fil. \<not> in_window m a e (positive_angle (phi_of p))))"
proof -
  have "overlaps m a e fil \<longleftrightarrow>
          in_window m a e (min_phi fil) \<or> in_window m a e (max_phi fil)"
    by (rule overlaps_iff_window [OF assms])
  moreover have "overlaps m a e fil \<longrightarrow>
          (\<exists>p\<in>set fil. in_window m a e (positive_angle (phi_of p)))"
    using overlaps_point [OF assms] by blast
  moreover have "\<not> overlaps m a e fil \<longrightarrow>
          (\<forall>p\<in>set fil. \<not> in_window m a e (positive_angle (phi_of p)))"
    using not_overlaps_point by blast
  ultimately show ?thesis by blast
qed

lemma phi_of_x_axis: "0 < x \<Longrightarrow> phi_of (x, 0, z) = 0"
  by (simp add: phi_of_def arctan2_def px_def py_def)

lemma phi_of_neg_x_axis: "x < 0 \<Longrightarrow> phi_of (x, 0, z) = pi"
  by (simp add: phi_of_def arctan2_def px_def py_def)

lemma phi_of_y_axis_pos: "0 < y \<Longrightarrow> phi_of (0, y, z) = pi / 2"
  by (simp add: phi_of_def arctan2_def px_def py_def)

lemma phi_of_y_axis_neg: "y < 0 \<Longrightarrow> phi_of (0, y, z) = - (pi / 2)"
  by (simp add: phi_of_def arctan2_def px_def py_def)

text \<open>A filament in the half plane \<open>y = 0\<close>, \<open>x > 0\<close> lies at the angle 0 and is kept.\<close>

lemma overlaps_x_axis:
  assumes "fil \<noteq> []" "list_all (\<lambda>p. 0 < px p \<and> py p = 0) fil" "0 \<le> e" "0 \<le> m" "0 < a"
  shows "overlaps m a e fil"
proof -
  have "phi_pts fil = map (\<lambda>p. 0) fil"
    unfolding phi_pts_def using assms(2)
    by (auto simp: list_all_iff phi_of_def arctan2_def positive_angle_id)
  with assms(1) have "set (phi_pts fil) = {0}" by (cases fil) auto
  then have "min_phi fil = 0" by (simp add: min_phi_def)
  moreover have "0 \<le> tol m a" using assms by (simp add: tol_def arctan2_def)
  ultimately show ?thesis using assms(3) by (simp add: overlaps_def max_rad_def)
qed

text \<open>With an extent of 360 degrees every filament is kept.\<close>

lemma overlaps_full:
  assumes "fil \<noteq> []" "0 \<le> m" "0 < a"
  shows "overlaps m a (deg2rad 360) fil"
proof -
  have "min_phi fil < 2 * pi" using phi_pts_range [OF min_phi_in [OF assms(1)]] by simp
  moreover have "0 \<le> tol m a" using assms by (simp add: tol_def arctan2_def)
  ultimately show ?thesis by (simp add: overlaps_def max_rad_def deg2rad_def)
qed

section \<open>Every output filament is a closed polyline\<close>

lemma unique_rows_set: "set (unique_rows seen xs) = set xs - set seen"
  by (induction xs arbitrary: seen) auto

lemma unique_rows_distinct: "distinct (unique_rows seen xs)"
  by (induction xs arbitrary: seen) (auto simp: unique_rows_set)

lemma unique_rows_hd: "xs \<noteq> [] \<Longrightarrow> hd (unique_rows [] xs) = hd xs"
  by (cases xs) auto

text \<open>
  The index the scan returns is either the one it started with or the index of a
  crossing, and the radius kept with it is the radius of the point at that index.
\<close>

lemma scan_start_Some:
  assumes "scan_start i xs best = Some (k, r)"
  shows "best = Some (k, r) \<or>
         (i \<le> k \<and> Suc (k - i) < length xs \<and>
          ratio_negative (pz (xs ! (k - i))) (pz (xs ! Suc (k - i))) \<and>
          r = radius (xs ! (k - i)))"
  using assms
proof (induction i xs best rule: scan_start.induct)
  case (1 i point next_point rest best)
  let ?b = "(if ratio_negative (pz point) (pz next_point) then
          (case best of
             None \<Rightarrow> Some (i, radius point)
           | Some (min_z_index, min_z_radius) \<Rightarrow>
               if min_z_radius < radius point then Some (i, radius point) else best)
        else best)"
  let ?ys = "next_point # rest"
  from 1 have "?b = Some (k, r) \<or>
         (Suc i \<le> k \<and> Suc (k - Suc i) < length ?ys \<and>
          ratio_negative (pz (?ys ! (k - Suc i))) (pz (?ys ! Suc (k - Suc i))) \<and>
          r = radius (?ys ! (k - Suc i)))"
    by simp
  then show ?case
  proof
    assume "?b = Some (k, r)"
    then show ?thesis by (auto split: if_splits option.splits)
  next
    assume a: "Suc i \<le> k \<and> Suc (k - Suc i) < length ?ys \<and>
          ratio_negative (pz (?ys ! (k - Suc i))) (pz (?ys ! Suc (k - Suc i))) \<and>
          r = radius (?ys ! (k - Suc i))"
    then have "k - i = Suc (k - Suc i)" by arith
    with a show ?thesis by auto
  qed
qed simp_all

lemma ratio_negative_neq: "ratio_negative a b \<Longrightarrow> a \<noteq> b"
  by (auto simp: ratio_negative_def split: if_splits)

lemma scan_start_crossing:
  assumes "scan_start 0 f None = Some (k, r)"
  shows "Suc k < length f \<and> ratio_negative (pz (f ! k)) (pz (f ! Suc k)) \<and> r = radius (f ! k)"
  using scan_start_Some [OF assms] by simp

lemma closing_consecutive:
  assumes "distinct u" "2 \<le> length u" "Suc i < length (u @ [hd u])"
  shows "(u @ [hd u]) ! i \<noteq> (u @ [hd u]) ! Suc i"
proof (cases "Suc i < length u")
  case True
  with assms(1) show ?thesis by (simp add: nth_append nth_eq_iff_index_eq)
next
  case False
  with assms(3) have i: "Suc i = length u" by simp
  with assms(2) have "0 < i" "i < length u" by simp_all
  with assms(1) have "u ! i \<noteq> u ! 0"
    using nth_eq_iff_index_eq [of u i 0] by (cases u) auto
  moreover from assms(2) have "hd u = u ! 0" by (cases u) simp_all
  ultimately show ?thesis using i by (simp add: nth_append)
qed

text \<open>
  What the loop body returns is a list of at least two distinct points followed by a copy
  of the first: the two points of the crossing are different.
\<close>

lemma reorder_shape:
  assumes "reorder f = Inr out"
  shows "\<exists>u. out = u @ [hd u] \<and> distinct u \<and> 2 \<le> length u \<and> set u = set f"
proof -
  from assms obtain k r where s: "scan_start 0 f None = Some (k, r)"
    by (auto simp: reorder_def split: option.splits if_splits)
  define ro where "ro = drop k f @ take k f"
  define fl where "fl = (if pz (f ! k) > pz (f ! (k + 1)) then rev ro else ro)"
  define u where "u = unique_rows [] fl"
  from assms s have out: "out = u @ [hd u]"
    by (simp add: reorder_def Let_def u_def fl_def ro_def split: if_splits)
  from scan_start_crossing [OF s] have k: "Suc k < length f" and ne: "f ! k \<noteq> f ! Suc k"
    by (auto dest: ratio_negative_neq simp: pz_def)
  have "set ro = set f" unfolding ro_def by (metis append_take_drop_id set_append sup_commute)
  then have "set fl = set f" by (simp add: fl_def)
  then have su: "set u = set f" by (simp add: u_def unique_rows_set)
  have d: "distinct u" by (simp add: u_def unique_rows_distinct)
  from k have "f ! k \<in> set f" "f ! Suc k \<in> set f" by simp_all
  with su ne have "f ! k \<in> set u" "f ! Suc k \<in> set u" by simp_all
  with ne have "2 \<le> length u"
    by (cases u; cases "tl u") auto
  with out d su show ?thesis by blast
qed

lemma reorder_closed:
  assumes "reorder f = Inr out"
  shows "3 \<le> length out \<and> hd out = last out \<and>
         (\<forall>i. Suc i < length out \<longrightarrow> out ! i \<noteq> out ! Suc i)"
proof -
  from reorder_shape [OF assms] obtain u where
    u: "out = u @ [hd u]" "distinct u" "2 \<le> length u" by blast
  then have "\<forall>i. Suc i < length out \<longrightarrow> out ! i \<noteq> out ! Suc i"
    using closing_consecutive [of u] by blast
  moreover from u have "hd out = last out" by (cases u) simp_all
  ultimately show ?thesis using u by simp
qed

lemma assign_row_long:
  assumes "assign_row row new = Inr r" "3 \<le> length new"
  shows "r = new"
  using assms by (auto simp: assign_row_def split: if_splits)

lemma reorder_all_closed:
  assumes "reorder_all fils = Inr rows" "row \<in> set rows"
  shows "hd row = last row \<and> (\<forall>i. Suc i < length row \<longrightarrow> row ! i \<noteq> row ! Suc i)"
  using assms
proof (induction fils arbitrary: rows)
  case Nil
  then show ?case by simp
next
  case (Cons f fils)
  from Cons.prems(1) obtain new r rest where
    n: "reorder f = Inr new" and a: "assign_row f new = Inr r"
    and rs: "reorder_all fils = Inr rest" and rows: "rows = r # rest"
    by (auto simp: bind_err_def split: sum.splits)
  from reorder_closed [OF n] assign_row_long [OF a]
  have r: "hd r = last r \<and> (\<forall>i. Suc i < length r \<longrightarrow> r ! i \<noteq> r ! Suc i)" by simp
  from Cons.prems(2) rows have "row = r \<or> row \<in> set rest" by auto
  then show ?case
  proof
    assume "row = r"
    with r show ?thesis by simp
  next
    assume "row \<in> set rest"
    with Cons.IH [OF rs] show ?thesis by simp
  qed
qed

lemma sorted_zip_set:
  assumes "sorted_zip keys xs = Inr ys" "length keys = length xs"
  shows "set ys = set xs"
proof -
  from assms(1) have "ys = map snd (sort_key fst (zip keys xs))"
    by (auto simp: sorted_zip_def split: if_splits)
  then have "set ys = snd ` set (zip keys xs)" by simp
  also have "\<dots> = set (map snd (zip keys xs))" by simp
  also have "\<dots> = set xs" using assms(2) by simp
  finally show ?thesis .
qed

lemma distinct_map_sort_key: "distinct (map f (sort_key f xs)) = distinct (map f xs)"
  by (induction xs) (auto simp: distinct_insort_key)

text \<open>
  What the second sort returns is in ascending order of the angles it is given, which
  are pairwise different: the angles of the centres of mass as \<^verbatim>\<open>np.arctan2\<close>
  returns them, in \<open>(-\<pi>, \<pi>]\<close>.
\<close>

lemma sorted_zip_sorted:
  assumes "sorted_zip (map f xs) xs = Inr ys"
  shows "sorted (map f ys) \<and> distinct (map f ys)"
proof -
  let ?zs = "zip (map f xs) xs"
  from assms have ys: "ys = map snd (sort_key fst ?zs)" and d: "distinct (map f xs)"
    by (auto simp: sorted_zip_def split: if_splits)
  have z: "\<And>z. z \<in> set ?zs \<Longrightarrow> f (snd z) = fst z"
    by (auto simp: in_set_zip)
  have "map f ys = map (\<lambda>z. f (snd z)) (sort_key fst ?zs)" by (simp add: ys)
  also have "\<dots> = map fst (sort_key fst ?zs)" using z by (simp cong: map_cong)
  finally have m: "map f ys = map fst (sort_key fst ?zs)" .
  have "distinct (map fst (sort_key fst ?zs)) = distinct (map fst ?zs)"
    by (rule distinct_map_sort_key)
  with d have "distinct (map fst (sort_key fst ?zs))" by simp
  with m show ?thesis by simp
qed

lemma set_filtered_filaments_order:
  assumes "set_filtered_filaments m a e fils = Inr out"
  shows "sorted (map (\<lambda>fil. phi_of (np_average fil)) out)
         \<and> distinct (map (\<lambda>fil. phi_of (np_average fil)) out)"
proof -
  from assms obtain rows where
    "sorted_zip (map (\<lambda>fil. phi_of (np_average fil)) rows) rows = Inr out"
    by (auto simp: set_filtered_filaments_def Let_def bind_err_def split: if_splits sum.splits)
  then show ?thesis by (rule sorted_zip_sorted)
qed

text \<open>
  C6: every filament that \<^verbatim>\<open>_set_filtered_filaments\<close> stores is a closed polyline: its
  first point equals its last point, and no two consecutive points are equal (the pair
  of the last two points included).
\<close>

theorem output_closed_polyline:
  assumes "set_filtered_filaments m a e fils = Inr out" "fil \<in> set out"
  shows "hd fil = last fil \<and> (\<forall>i. Suc i < length fil \<longrightarrow> fil ! i \<noteq> fil ! Suc i)"
proof -
  from assms(1) obtain srt rows where
    r: "reorder_all srt = Inr rows"
    and o: "sorted_zip (map (\<lambda>fil. phi_of (np_average fil)) rows) rows = Inr out"
    by (auto simp: set_filtered_filaments_def Let_def bind_err_def split: if_splits sum.splits)
  from sorted_zip_set [OF o] have "set out = set rows" by simp
  with assms(2) reorder_all_closed [OF r] show ?thesis by blast
qed

lemma radius_x_axis: "0 \<le> x \<Longrightarrow> radius (x, 0, z) = x"
  by (simp add: radius_def px_def py_def)

lemma radius_y_axis: "radius (0, y, z) = \<bar>y\<bar>"
  by (simp add: radius_def px_def py_def)

text \<open>
  A square filament in the half plane \<open>y = 0\<close>, \<open>x > 0\<close>, closed, that starts at its
  outboard crossing with z increasing: the method returns it as it is.
\<close>

lemma reorder_square_up:
  "reorder [(10, 0, - 1), (10, 0, 1), (8, 0, 1), (8, 0, - 1), (10, 0, - 1)]
   = Inr [(10, 0, - 1), (10, 0, 1), (8, 0, 1), (8, 0, - 1), (10, 0, - 1)]"
  by (simp add: reorder_def ratio_negative_def radius_def px_def py_def pz_def Let_def)

lemma average_square_up:
  "set_average_radial_distance [[(10, 0, - 1), (10, 0, 1), (8, 0, 1), (8, 0, - 1), (10, 0, - 1)]]
   = 46 / 5"
  by (simp add: set_average_radial_distance_def radius_x_axis)

lemma filtered_square_up:
  "set_filtered_filaments 5 (46 / 5) (deg2rad 90)
     [[(10, 0, - 1), (10, 0, 1), (8, 0, 1), (8, 0, - 1), (10, 0, - 1)]]
   = Inr [[(10, 0, - 1), (10, 0, 1), (8, 0, 1), (8, 0, - 1), (10, 0, - 1)]]"
proof -
  have o: "overlaps 5 (46 / 5) (deg2rad 90)
             [(10, 0, - 1), (10, 0, 1), (8, 0, 1), (8, 0, - 1), (10, 0, - 1)]"
    by (rule overlaps_x_axis) (simp_all add: px_def py_def deg2rad_def)
  show ?thesis
    by (simp add: set_filtered_filaments_def is_array_def o sorted_zip_def bind_err_def
        reorder_square_up assign_row_def)
qed

theorem output_closed_polyline_witness:
  "set_filtered_filaments 5 (46 / 5) (deg2rad 90)
     [[(10, 0, - 1), (10, 0, 1), (8, 0, 1), (8, 0, - 1), (10, 0, - 1)]]
   = Inr [[(10, 0, - 1), (10, 0, 1), (8, 0, 1), (8, 0, - 1), (10, 0, - 1)]]
   \<and> hd [(10, 0, - 1), (10, 0, 1), (8, 0, 1), (8, 0, - 1), (10 :: real, 0 :: real, - 1 :: real)]
       = last [(10, 0, - 1), (10, 0, 1), (8, 0, 1), (8, 0, - 1), (10, 0, - 1)]
   \<and> list_all (\<lambda>i. [(10, 0, - 1), (10, 0, 1), (8, 0, 1), (8, 0, - 1), (10 :: real, 0 :: real, - 1 :: real)] ! i
                  \<noteq> [(10, 0, - 1), (10, 0, 1), (8, 0, 1), (8, 0, - 1), (10, 0, - 1)] ! Suc i)
        [0, 1, 2, 3]"
  using output_closed_polyline [OF filtered_square_up,
      of "[(10, 0, - 1), (10, 0, 1), (8, 0, 1), (8, 0, - 1), (10, 0, - 1)]"]
  by (simp add: filtered_square_up)

section \<open>What the filter keeps\<close>

text \<open>
  Reordering keeps the points of a filament, and the sorts keep the filaments: what the
  method stores are the filaments that met the condition of the first loop, each with
  its points in a new order.
\<close>

lemma reorder_set:
  assumes "reorder f = Inr out"
  shows "set out = set f \<and> 3 \<le> length out"
proof -
  from reorder_shape [OF assms] obtain u where
    u: "out = u @ [hd u]" "distinct u" "2 \<le> length u" "set u = set f" by blast
  from u(3) have "u \<noteq> []" by auto
  then have "hd u \<in> set u" by simp
  then have "set (u @ [hd u]) = set u" by auto
  moreover from u(3) have "3 \<le> length (u @ [hd u])" by simp
  ultimately show ?thesis by (simp only: u(1) u(4))
qed

lemma reorder_all_sets:
  assumes "reorder_all fils = Inr rows"
  shows "map set rows = map set fils"
  using assms
proof (induction fils arbitrary: rows)
  case Nil
  then show ?case by simp
next
  case (Cons f fils)
  from Cons.prems obtain new r rest where
    n: "reorder f = Inr new" and a: "assign_row f new = Inr r"
    and rs: "reorder_all fils = Inr rest" and rows: "rows = r # rest"
    by (auto simp: bind_err_def split: sum.splits)
  from reorder_set [OF n] assign_row_long [OF a] have "set r = set f" by simp
  with Cons.IH [OF rs] rows show ?case by simp
qed

lemma sorted_zip_length:
  assumes "sorted_zip keys xs = Inr ys" "length keys = length xs"
  shows "length ys = length xs"
  using assms by (auto simp: sorted_zip_def split: if_splits)

lemma set_filtered_filaments_kept:
  assumes "set_filtered_filaments m a e fils = Inr out"
  shows "length out = length (filter (overlaps m a e) fils)
         \<and> set ` set out = set ` set (filter (overlaps m a e) fils)
         \<and> list_all (\<lambda>fil. fil \<noteq> []) fils"
proof -
  let ?red = "filter (overlaps m a e) fils"
  from assms have ne: "\<not> list_ex (\<lambda>fil. fil = []) fils"
    by (auto simp: set_filtered_filaments_def split: if_splits)
  from assms obtain srt rows where
    s: "sorted_zip (map (\<lambda>com. positive_angle (phi_of com)) (map np_average ?red)) ?red = Inr srt"
    and r: "reorder_all srt = Inr rows"
    and so: "sorted_zip (map (\<lambda>fil. phi_of (np_average fil)) rows) rows = Inr out"
    by (auto simp: set_filtered_filaments_def Let_def bind_err_def split: if_splits sum.splits)
  have s1: "set srt = set ?red" by (rule sorted_zip_set [OF s]) simp
  have s2: "length srt = length ?red" by (rule sorted_zip_length [OF s]) simp
  from reorder_all_sets [OF r] have 2: "map set rows = map set srt" .
  then have "length (map set rows) = length (map set srt)" by (rule arg_cong)
  then have rl: "length rows = length srt" by (simp only: length_map)
  from 2 have "set (map set rows) = set (map set srt)" by (rule arg_cong)
  then have rs: "set ` set rows = set ` set srt" by (simp only: set_map)
  have o1: "set out = set rows" by (rule sorted_zip_set [OF so]) simp
  have o2: "length out = length rows" by (rule sorted_zip_length [OF so]) simp
  have "length out = length ?red" by (simp only: o2 rl s2)
  moreover have "set ` set out = set ` set ?red" by (simp only: o1 rs s1)
  moreover from ne have "list_all (\<lambda>fil. fil \<noteq> []) fils"
    by (auto simp: list_all_iff list_ex_iff)
  ultimately show ?thesis by (intro conjI)
qed

lemma overlaps_cong_set:
  assumes "set f = set g"
  shows "overlaps m a e f = overlaps m a e g"
proof -
  from assms have "set (phi_pts f) = set (phi_pts g)" by (simp add: phi_pts_def)
  then show ?thesis by (simp add: overlaps_def min_phi_def max_phi_def)
qed

text \<open>
  C5: the filaments that \<^verbatim>\<open>_set_filtered_filaments\<close> stores are the filaments the filter
  of its first loop keeps, and a filament is kept by the filter if and only if its minimum
  or its maximum normalised point angle lies in \<open>[min_rad, 2\<pi>) \<union> [0, max_rad]\<close>, where
  \<open>min_rad = 2\<pi> - tol\<close>, \<open>max_rad = toroidal_extent + tol\<close> and
  \<open>tol = 2 * arctan2(mag_len, average_radial_distance)\<close>.  Every filament that is kept,
  and every filament that is stored, has a point whose normalised angle is in the window;
  a filament that is rejected is not stored and has no point in the window.
\<close>

theorem window_membership:
  assumes "set_filtered_filaments m a e fils = Inr out"
  shows "length out = length (filter (overlaps m a e) fils)
     \<and> set ` set out = set ` set (filter (overlaps m a e) fils)
     \<and> (\<forall>fil\<in>set fils.
          (overlaps m a e fil \<longleftrightarrow>
             in_window m a e (min_phi fil) \<or> in_window m a e (max_phi fil))
          \<and> (overlaps m a e fil \<longrightarrow>
               set fil \<in> set ` set out
               \<and> (\<exists>p\<in>set fil. in_window m a e (positive_angle (phi_of p))))
          \<and> (\<not> overlaps m a e fil \<longrightarrow>
               set fil \<notin> set ` set out
               \<and> (\<forall>p\<in>set fil. \<not> in_window m a e (positive_angle (phi_of p)))))
     \<and> (\<forall>fil\<in>set out. \<exists>p\<in>set fil. in_window m a e (positive_angle (phi_of p)))
     \<and> min_rad m a = 2 * pi - tol m a \<and> max_rad m a e = e + tol m a
     \<and> tol m a = 2 * arctan2 m a"
proof -
  let ?red = "filter (overlaps m a e) fils"
  from set_filtered_filaments_kept [OF assms]
  have len: "length out = length ?red" and sets: "set ` set out = set ` set ?red"
    and ne: "\<And>fil. fil \<in> set fils \<Longrightarrow> fil \<noteq> []"
    by (simp_all add: list_all_iff)
  have out: "\<exists>p\<in>set row. in_window m a e (positive_angle (phi_of p))"
    if "row \<in> set out" for row
  proof -
    from that have "set row \<in> set ` set out" by (rule imageI)
    then have "set row \<in> set ` set ?red" by (simp only: sets)
    then obtain f where f: "f \<in> set ?red" "set row = set f" by (rule imageE) simp
    then have "f \<noteq> []" "overlaps m a e f" using ne by simp_all
    from overlaps_point [OF this] f(2) show ?thesis by simp
  qed
  have each: "(overlaps m a e fil \<longleftrightarrow>
             in_window m a e (min_phi fil) \<or> in_window m a e (max_phi fil))
          \<and> (overlaps m a e fil \<longrightarrow>
               set fil \<in> set ` set out
               \<and> (\<exists>p\<in>set fil. in_window m a e (positive_angle (phi_of p))))
          \<and> (\<not> overlaps m a e fil \<longrightarrow>
               set fil \<notin> set ` set out
               \<and> (\<forall>p\<in>set fil. \<not> in_window m a e (positive_angle (phi_of p))))"
    if "fil \<in> set fils" for fil
  proof -
    have n: "fil \<noteq> []" using ne that .
    have a: "overlaps m a e fil \<longleftrightarrow>
             in_window m a e (min_phi fil) \<or> in_window m a e (max_phi fil)"
      by (rule overlaps_iff_window [OF n])
    have b: "set fil \<in> set ` set out
               \<and> (\<exists>p\<in>set fil. in_window m a e (positive_angle (phi_of p)))"
      if "overlaps m a e fil"
    proof -
      from that \<open>fil \<in> set fils\<close> have "fil \<in> set ?red" by simp
      then have "set fil \<in> set ` set ?red" by (rule imageI)
      then have "set fil \<in> set ` set out" by (simp only: sets)
      moreover note overlaps_point [OF n that]
      ultimately show ?thesis by (rule conjI)
    qed
    have c: "set fil \<notin> set ` set out
               \<and> (\<forall>p\<in>set fil. \<not> in_window m a e (positive_angle (phi_of p)))"
      if no: "\<not> overlaps m a e fil"
    proof -
      have "set fil \<notin> set ` set out"
      proof
        assume "set fil \<in> set ` set out"
        then have "set fil \<in> set ` set ?red" by (simp only: sets)
        then obtain f where f: "f \<in> set ?red" "set fil = set f" by (rule imageE) simp
        from f(1) have "overlaps m a e f" by simp
        moreover have "overlaps m a e fil = overlaps m a e f"
          by (rule overlaps_cong_set [OF f(2)])
        ultimately show False using no by simp
      qed
      moreover have "\<forall>p\<in>set fil. \<not> in_window m a e (positive_angle (phi_of p))"
        using not_overlaps_point [OF no] by (rule ballI)
      ultimately show ?thesis by (rule conjI)
    qed
    from b have b': "overlaps m a e fil \<longrightarrow>
               set fil \<in> set ` set out
               \<and> (\<exists>p\<in>set fil. in_window m a e (positive_angle (phi_of p)))"
      by (rule impI)
    from c have c': "\<not> overlaps m a e fil \<longrightarrow>
               set fil \<notin> set ` set out
               \<and> (\<forall>p\<in>set fil. \<not> in_window m a e (positive_angle (phi_of p)))"
      by (rule impI)
    from a b' c' show ?thesis by (intro conjI)
  qed
  have all_in: "\<forall>fil\<in>set fils.
          (overlaps m a e fil \<longleftrightarrow>
             in_window m a e (min_phi fil) \<or> in_window m a e (max_phi fil))
          \<and> (overlaps m a e fil \<longrightarrow>
               set fil \<in> set ` set out
               \<and> (\<exists>p\<in>set fil. in_window m a e (positive_angle (phi_of p))))
          \<and> (\<not> overlaps m a e fil \<longrightarrow>
               set fil \<notin> set ` set out
               \<and> (\<forall>p\<in>set fil. \<not> in_window m a e (positive_angle (phi_of p))))"
    using each by (rule ballI)
  have all_out: "\<forall>fil\<in>set out. \<exists>p\<in>set fil. in_window m a e (positive_angle (phi_of p))"
    using out by (rule ballI)
  have d1: "min_rad m a = 2 * pi - tol m a" by (simp add: min_rad_def)
  have d2: "max_rad m a e = e + tol m a" by (simp add: max_rad_def)
  have d3: "tol m a = 2 * arctan2 m a" by (simp add: tol_def)
  from len sets all_in all_out d1 d2 d3 show ?thesis by (intro conjI)
qed

text \<open>
  Two squares of one coil set, at the angles 0 and \<open>\<pi>\<close>, with an extent of 90 degrees
  and \<open>mag_len = 5\<close>: the first is kept and stored, the second is rejected.
\<close>

lemma arctan_25_46: "0 < arctan (25 / 46 :: real) \<and> 2 * arctan (25 / 46 :: real) < pi / 2"
proof -
  have "arctan (25 / 46 :: real) < arctan 1" by (simp add: arctan_less_iff)
  then have "2 * arctan (25 / 46 :: real) < pi / 2" by (simp add: arctan_one)
  moreover have "0 < arctan (25 / 46 :: real)" by simp
  ultimately show ?thesis by simp
qed

lemma not_overlaps_inboard_side:
  "\<not> overlaps 5 (46 / 5) (deg2rad 90)
       [(- 10, 0, - 1), (- 10, 0, 1), (- 8, 0, 1), (- 8, 0, - 1), (- 10, 0, - 1)]"
proof -
  have t: "tol 5 (46 / 5) = 2 * arctan (25 / 46)" by (simp add: tol_def arctan2_def)
  have p: "positive_angle pi = pi" by (rule positive_angle_id) simp_all
  have "phi_pts [(- 10, 0, - 1), (- 10, 0, 1), (- 8, 0, 1), (- 8, 0, - 1), (- 10, 0, - 1)]
          = [pi, pi, pi, pi, pi]"
    by (simp add: phi_pts_def phi_of_neg_x_axis p)
  then have m:
    "min_phi [(- 10, 0, - 1), (- 10, 0, 1), (- 8, 0, 1), (- 8, 0, - 1), (- 10, 0, - 1)] = pi"
    "max_phi [(- 10, 0, - 1), (- 10, 0, 1), (- 8, 0, 1), (- 8, 0, - 1), (- 10, 0, - 1)] = pi"
    by (simp_all add: min_phi_def max_phi_def)
  have "\<not> pi \<ge> 2 * pi - 2 * arctan (25 / 46)" using arctan_25_46 by linarith
  moreover have "\<not> pi \<le> 90 * (pi / 180) + 2 * arctan (25 / 46)"
    using arctan_25_46 by linarith
  ultimately show ?thesis
    by (simp only: overlaps_def m min_rad_def max_rad_def t deg2rad_def simp_thms)
qed

lemma overlaps_square_up:
  "overlaps 5 (46 / 5) (deg2rad 90)
     [(10, 0, - 1), (10, 0, 1), (8, 0, 1), (8, 0, - 1), (10, 0, - 1)]"
  by (rule overlaps_x_axis) (simp_all add: px_def py_def deg2rad_def)

lemma average_two_sides:
  "set_average_radial_distance
     [[(10, 0, - 1), (10, 0, 1), (8, 0, 1), (8, 0, - 1), (10, 0, - 1)],
      [(- 10, 0, - 1), (- 10, 0, 1), (- 8, 0, 1), (- 8, 0, - 1), (- 10, 0, - 1)]] = 46 / 5"
  by (simp add: set_average_radial_distance_def radius_def px_def py_def)

lemma filtered_two_sides:
  "set_filtered_filaments 5 (46 / 5) (deg2rad 90)
     [[(10, 0, - 1), (10, 0, 1), (8, 0, 1), (8, 0, - 1), (10, 0, - 1)],
      [(- 10, 0, - 1), (- 10, 0, 1), (- 8, 0, 1), (- 8, 0, - 1), (- 10, 0, - 1)]]
   = Inr [[(10, 0, - 1), (10, 0, 1), (8, 0, 1), (8, 0, - 1), (10, 0, - 1)]]"
  by (simp add: set_filtered_filaments_def is_array_def overlaps_square_up
      not_overlaps_inboard_side sorted_zip_def bind_err_def reorder_square_up assign_row_def)

theorem window_membership_witness:
  "set_filtered_filaments 5 (46 / 5) (deg2rad 90)
     [[(10, 0, - 1), (10, 0, 1), (8, 0, 1), (8, 0, - 1), (10, 0, - 1)],
      [(- 10, 0, - 1), (- 10, 0, 1), (- 8, 0, 1), (- 8, 0, - 1), (- 10, 0, - 1)]]
   = Inr [[(10, 0, - 1), (10, 0, 1), (8, 0, 1), (8, 0, - 1), (10, 0, - 1)]]
   \<and> overlaps 5 (46 / 5) (deg2rad 90)
        [(10, 0, - 1), (10, 0, 1), (8, 0, 1), (8, 0, - 1), (10, 0, - 1)]
   \<and> (in_window 5 (46 / 5) (deg2rad 90) (positive_angle (phi_of (10, 0, - 1)))
        \<or> in_window 5 (46 / 5) (deg2rad 90) (positive_angle (phi_of (8, 0, 1))))
   \<and> \<not> overlaps 5 (46 / 5) (deg2rad 90)
        [(- 10, 0, - 1), (- 10, 0, 1), (- 8, 0, 1), (- 8, 0, - 1), (- 10, 0, - 1)]
   \<and> \<not> in_window 5 (46 / 5) (deg2rad 90) (positive_angle (phi_of (- 10, 0, - 1)))
   \<and> \<not> in_window 5 (46 / 5) (deg2rad 90) (positive_angle (phi_of (- 8, 0, 1)))
   \<and> set [(- 10, 0, - 1), (- 10, 0, 1), (- 8, 0, 1), (- 8, 0, - 1), (- 10 :: real, 0 :: real, - 1 :: real)]
        \<notin> set ` set [[(10, 0, - 1), (10, 0, 1), (8, 0, 1), (8, 0, - 1), (10, 0, - 1)]]"
proof -
  let ?S = "[(10, 0, - 1), (10, 0, 1), (8, 0, 1), (8, 0, - 1), (10 :: real, 0 :: real, - 1 :: real)]"
  let ?O = "[(- 10, 0, - 1), (- 10, 0, 1), (- 8, 0, 1), (- 8, 0, - 1), (- 10 :: real, 0 :: real, - 1 :: real)]"
  note w = window_membership [OF filtered_two_sides]
  from w have all: "\<forall>fil\<in>set [?S, ?O].
          (overlaps 5 (46 / 5) (deg2rad 90) fil \<longrightarrow>
               (\<exists>p\<in>set fil. in_window 5 (46 / 5) (deg2rad 90) (positive_angle (phi_of p))))
          \<and> (\<not> overlaps 5 (46 / 5) (deg2rad 90) fil \<longrightarrow>
               set fil \<notin> set ` set [?S]
               \<and> (\<forall>p\<in>set fil. \<not> in_window 5 (46 / 5) (deg2rad 90) (positive_angle (phi_of p))))"
    by blast
  from all overlaps_square_up
  have "\<exists>p\<in>set ?S. in_window 5 (46 / 5) (deg2rad 90) (positive_angle (phi_of p))"
    by simp
  then have a: "in_window 5 (46 / 5) (deg2rad 90) (positive_angle (phi_of (10, 0, - 1)))
        \<or> in_window 5 (46 / 5) (deg2rad 90) (positive_angle (phi_of (8, 0, 1)))"
    by (auto simp: phi_of_x_axis)
  from all not_overlaps_inboard_side
  have b: "set ?O \<notin> set ` set [?S]
      \<and> (\<forall>p\<in>set ?O. \<not> in_window 5 (46 / 5) (deg2rad 90) (positive_angle (phi_of p)))"
    by simp
  then have c: "\<not> in_window 5 (46 / 5) (deg2rad 90) (positive_angle (phi_of (- 10, 0, - 1)))"
    "\<not> in_window 5 (46 / 5) (deg2rad 90) (positive_angle (phi_of (- 8, 0, 1)))"
    by simp_all
  from filtered_two_sides overlaps_square_up a not_overlaps_inboard_side c b
  show ?thesis by (intro conjI) simp_all
qed

section \<open>The start point and the initial direction\<close>

lemma crossing_points_Cons2:
  "crossing_points (p # q # rest) =
     (if ratio_negative (pz p) (pz q) then [p] else []) @ crossing_points (q # rest)"
  by (simp add: crossing_points_def)

text \<open>
  The scan returns the index of a z-crossing candidate of largest radial distance.
\<close>

lemma scan_start_max:
  assumes "scan_start i xs best = Some (k, r)"
  shows "(\<forall>p\<in>set (crossing_points xs). radius p \<le> r) \<and>
         (\<forall>bi br. best = Some (bi, br) \<longrightarrow> br \<le> r)"
  using assms
proof (induction i xs best rule: scan_start.induct)
  case (1 i point next_point rest best)
  let ?b = "(if ratio_negative (pz point) (pz next_point) then
          (case best of
             None \<Rightarrow> Some (i, radius point)
           | Some (min_z_index, min_z_radius) \<Rightarrow>
               if min_z_radius < radius point then Some (i, radius point) else best)
        else best)"
  from 1 have ih: "(\<forall>p\<in>set (crossing_points (next_point # rest)). radius p \<le> r) \<and>
         (\<forall>bi br. ?b = Some (bi, br) \<longrightarrow> br \<le> r)"
    by simp
  show ?case
  proof (cases "ratio_negative (pz point) (pz next_point)")
    case False
    with ih show ?thesis by (simp add: crossing_points_Cons2)
  next
    case True
    show ?thesis
    proof (cases best)
      case None
      with True ih show ?thesis by (simp add: crossing_points_Cons2)
    next
      case (Some b)
      obtain bi br where b: "b = (bi, br)" by (cases b)
      show ?thesis
      proof (cases "br < radius point")
        case True
        with \<open>ratio_negative (pz point) (pz next_point)\<close> Some b ih
        show ?thesis by (auto simp: crossing_points_Cons2)
      next
        case False
        with \<open>ratio_negative (pz point) (pz next_point)\<close> Some b ih
        show ?thesis by (auto simp: crossing_points_Cons2)
      qed
    qed
  qed
next
  case (2 i point best)
  then show ?case by (simp add: crossing_points_def)
next
  case (3 i best)
  then show ?case by (simp add: crossing_points_def)
qed

lemma crossing_points_nth:
  "Suc k < length f \<Longrightarrow> ratio_negative (pz (f ! k)) (pz (f ! Suc k)) \<Longrightarrow>
   f ! k \<in> set (crossing_points f)"
proof (induction f arbitrary: k)
  case Nil
  then show ?case by simp
next
  case (Cons p f)
  show ?case
  proof (cases f)
    case Nil
    with Cons.prems show ?thesis by simp
  next
    case (Cons q rest)
    show ?thesis
    proof (cases k)
      case 0
      with Cons.prems Cons show ?thesis by (simp add: crossing_points_Cons2)
    next
      case (Suc j)
      with Cons.prems have "f ! j \<in> set (crossing_points f)"
        by (intro Cons.IH) simp_all
      with Suc Cons show ?thesis by (simp add: crossing_points_Cons2)
    qed
  qed
qed

lemma scan_start_None: "scan_start i xs best = None \<Longrightarrow> crossing_points xs = [] \<and> best = None"
  by (induction i xs best rule: scan_start.induct)
     (auto simp: crossing_points_Cons2 crossing_points_def split: if_splits option.splits)

lemma scan_start_outboard:
  assumes "scan_start 0 f None = Some (k, r)"
  shows "f ! k \<in> set (crossing_points f) \<and> (\<forall>p\<in>set (crossing_points f). radius p \<le> radius (f ! k))"
  using scan_start_crossing [OF assms] scan_start_max [OF assms] crossing_points_nth
  by blast

text \<open>
  Where z does not decrease at the chosen index, the stored filament starts at the chosen
  point and goes on to its successor.  Where z decreases there, the reversal puts the
  last point of the rotated array first: the point before the chosen one, or the last
  point of the filament when the chosen index is 0.
\<close>

lemma unique_rows_two: "a \<noteq> b \<Longrightarrow> \<exists>ys. unique_rows [] (a # b # xs) = a # b # ys"
  by simp

lemma reorder_start_unflipped:
  assumes "scan_start 0 f None = Some (k, r)" "\<not> pz (f ! k) > pz (f ! (k + 1))"
  shows "\<exists>out. reorder f = Inr out \<and> hd out = f ! k \<and> out ! 1 = f ! (k + 1)"
proof -
  from scan_start_crossing [OF assms(1)] have k: "Suc k < length f" and ne: "f ! k \<noteq> f ! Suc k"
    by (auto dest: ratio_negative_neq simp: pz_def)
  from k have "drop k f = f ! k # f ! Suc k # drop (Suc (Suc k)) f"
    by (simp add: Cons_nth_drop_Suc)
  then have "drop k f @ take k f = f ! k # f ! Suc k # (drop (Suc (Suc k)) f @ take k f)"
    by simp
  with ne obtain ys where "unique_rows [] (drop k f @ take k f) = f ! k # f ! Suc k # ys"
    by (metis unique_rows_two)
  with assms show ?thesis by (simp add: reorder_def)
qed

lemma reorder_start_flipped:
  assumes "scan_start 0 f None = Some (k, r)" "pz (f ! k) > pz (f ! (k + 1))"
  shows "\<exists>out. reorder f = Inr out \<and> hd out = (if k = 0 then last f else f ! (k - 1))"
proof -
  from scan_start_crossing [OF assms(1)] have k: "Suc k < length f" by simp
  let ?ro = "drop k f @ take k f"
  from k have ne: "?ro \<noteq> []" by simp
  have "hd (rev ?ro) = last ?ro" by (rule hd_rev)
  also have "\<dots> = (if k = 0 then last f else f ! (k - 1))"
  proof (cases k)
    case 0
    then show ?thesis by simp
  next
    case (Suc j)
    with k have "take k f \<noteq> []" by auto
    then have "last ?ro = last (take k f)" by simp
    also have "\<dots> = f ! (k - 1)" using k Suc by (simp add: take_Suc_conv_app_nth)
    finally show ?thesis using Suc by simp
  qed
  finally have h: "hd (rev ?ro) = (if k = 0 then last f else f ! (k - 1))" .
  define u where "u = unique_rows [] (rev ?ro)"
  have rne: "rev ?ro \<noteq> []" using k by auto
  have hu: "hd u = hd (rev ?ro)" unfolding u_def by (rule unique_rows_hd [OF rne])
  have "set u = set (rev ?ro)" by (simp only: u_def unique_rows_set) simp
  with rne have une: "u \<noteq> []" by (metis set_empty)
  have "reorder f = Inr (u @ [hd u])"
    using assms by (simp add: reorder_def Let_def u_def del: rev_append)
  moreover from une have "hd (u @ [hd u]) = hd u" by simp
  ultimately show ?thesis using hu h by simp
qed

text \<open>
  The same square, closed, entered at the inboard upper corner.  The outboard crossing
  is at index 1, where z decreases, so the reordered points are reversed: the reversal
  moves the point before the crossing to the front.
\<close>

lemma reorder_square_down:
  "reorder [(8, 0, 1), (10, 0, 1), (10, 0, - 1), (8, 0, - 1), (8, 0, 1)]
   = Inr [(8, 0, 1), (8, 0, - 1), (10, 0, - 1), (10, 0, 1), (8, 0, 1)]"
  by (simp add: reorder_def ratio_negative_def radius_def px_def py_def pz_def Let_def)

lemma average_square_down:
  "set_average_radial_distance [[(8, 0, 1), (10, 0, 1), (10, 0, - 1), (8, 0, - 1), (8, 0, 1)]]
   = 44 / 5"
  by (simp add: set_average_radial_distance_def radius_x_axis)

lemma crossing_square_down:
  "crossing_points [(8, 0, 1), (10, 0, 1), (10, 0, - 1), (8, 0, - 1), (8, 0, 1)]
   = [(10, 0, 1), (8, 0, - 1)]"
  by (simp add: crossing_points_def ratio_negative_def pz_def)

lemma filtered_square_down:
  "set_filtered_filaments 5 (44 / 5) (deg2rad 90)
     [[(8, 0, 1), (10, 0, 1), (10, 0, - 1), (8, 0, - 1), (8, 0, 1)]]
   = Inr [[(8, 0, 1), (8, 0, - 1), (10, 0, - 1), (10, 0, 1), (8, 0, 1)]]"
proof -
  have o: "overlaps 5 (44 / 5) (deg2rad 90)
             [(8, 0, 1), (10, 0, 1), (10, 0, - 1), (8, 0, - 1), (8, 0, 1)]"
    by (rule overlaps_x_axis) (simp_all add: px_def py_def deg2rad_def)
  show ?thesis
    by (simp add: set_filtered_filaments_def is_array_def o sorted_zip_def bind_err_def
        reorder_square_down assign_row_def)
qed

text \<open>
  C2 claims that the first point of every output filament with a z-crossing has the
  largest radial distance among the filament's z-crossing candidates.  For the square
  entered at \<open>(8, 0, 1)\<close> the candidates are \<open>(10, 0, 1)\<close> and \<open>(8, 0, -1)\<close>, and the
  output starts at \<open>(8, 0, 1)\<close>, of radial distance 8, which is less than 10.
\<close>

theorem start_point_not_outboard:
  "set_filtered_filaments 5 (44 / 5) (deg2rad 90)
     [[(8, 0, 1), (10, 0, 1), (10, 0, - 1), (8, 0, - 1), (8, 0, 1)]]
   = Inr [[(8, 0, 1), (8, 0, - 1), (10, 0, - 1), (10, 0, 1), (8, 0, 1)]]
   \<and> crossing_points [(8, 0, 1), (10, 0, 1), (10, 0, - 1), (8, 0, - 1), (8, 0, 1)]
       = [(10, 0, 1), (8, 0, - 1)]
   \<and> radius (hd [(8, 0, 1), (8, 0, - 1), (10, 0, - 1), (10, 0, 1), (8, 0, 1)])
       < radius (10, 0, 1)"
  by (simp add: filtered_square_down crossing_square_down radius_def px_def py_def)

text \<open>
  C3 claims that in every output filament the z-coordinate of the second point is at
  least that of the first.  For the same square the output starts
  \<open>(8, 0, 1), (8, 0, -1)\<close>: z goes from 1 down to -1.
\<close>

theorem second_point_below_start:
  "set_filtered_filaments 5 (44 / 5) (deg2rad 90)
     [[(8, 0, 1), (10, 0, 1), (10, 0, - 1), (8, 0, - 1), (8, 0, 1)]]
   = Inr [[(8, 0, 1), (8, 0, - 1), (10, 0, - 1), (10, 0, 1), (8, 0, 1)]]
   \<and> pz ([(8, 0, 1), (8, 0, - 1), (10, 0, - 1), (10, 0, 1), (8 :: real, 0 :: real, 1 :: real)] ! 1)
       < pz ([(8, 0, 1), (8, 0, - 1), (10, 0, - 1), (10, 0, 1), (8, 0, 1)] ! 0)"
  by (simp add: filtered_square_down pz_def)

text \<open>A square above the plane \<open>z = 0\<close> has no z-crossing.\<close>

lemma reorder_no_crossing:
  "reorder [(10, 0, 1), (10, 0, 2), (8, 0, 2), (8, 0, 1), (10, 0, 1)] = Inl TypeError"
  by (simp add: reorder_def ratio_negative_def pz_def)

text \<open>Without a z-crossing the loop body always raises.\<close>

lemma reorder_without_crossing:
  "scan_start 0 f None = None \<Longrightarrow>
   reorder f = Inl (if length f < 3 then IndexError else TypeError)"
  by (simp add: reorder_def)

text \<open>
  C7 claims that for a kept filament without a z-crossing the selection of the start
  point completes without error and leaves the filament as it is.  For the square above
  the plane the scan ends with \<open>min_z_index\<close> still \<open>None\<close>, and the loop body, and with
  it \<^verbatim>\<open>_set_filtered_filaments\<close>, raises TypeError.
\<close>

theorem no_crossing_raises:
  "crossing_points [(10, 0, 1), (10, 0, 2), (8, 0, 2), (8, 0, 1), (10, 0, 1)] = []
   \<and> scan_start 0 [(10, 0, 1), (10, 0, 2), (8, 0, 2), (8, 0, 1), (10, 0, 1)] None = None
   \<and> reorder [(10, 0, 1), (10, 0, 2), (8, 0, 2), (8, 0, 1), (10, 0, 1)] = Inl TypeError
   \<and> set_filtered_filaments 5 (46 / 5) (deg2rad 90)
        [[(10, 0, 1), (10, 0, 2), (8, 0, 2), (8, 0, 1), (10, 0, 1)]] = Inl TypeError"
proof -
  have o: "overlaps 5 (46 / 5) (deg2rad 90)
             [(10, 0, 1), (10, 0, 2), (8, 0, 2), (8, 0, 1), (10, 0, 1)]"
    by (rule overlaps_x_axis) (simp_all add: px_def py_def deg2rad_def)
  show ?thesis
    by (simp add: set_filtered_filaments_def is_array_def o sorted_zip_def bind_err_def
        reorder_no_crossing crossing_points_def ratio_negative_def pz_def)
qed

section \<open>The order of the output\<close>

text \<open>
  Two squares in the plane \<open>x = 0\<close>, one at \<open>y > 0\<close> (at 90 degrees) and one at \<open>y < 0\<close>
  (at 270 degrees, which \<^verbatim>\<open>np.arctan2\<close> gives as -90 degrees), and a third, larger one
  at \<open>y > 0\<close>.
\<close>

lemma reorder_north:
  "reorder [(0, 10, - 1), (0, 10, 1), (0, 8, 1), (0, 8, - 1), (0, 10, - 1)]
   = Inr [(0, 10, - 1), (0, 10, 1), (0, 8, 1), (0, 8, - 1), (0, 10, - 1)]"
  by (simp add: reorder_def ratio_negative_def radius_def px_def py_def pz_def Let_def)

lemma reorder_south:
  "reorder [(0, - 10, - 1), (0, - 10, 1), (0, - 8, 1), (0, - 8, - 1), (0, - 10, - 1)]
   = Inr [(0, - 10, - 1), (0, - 10, 1), (0, - 8, 1), (0, - 8, - 1), (0, - 10, - 1)]"
  by (simp add: reorder_def ratio_negative_def radius_def px_def py_def pz_def Let_def)

lemma com_north:
  "phi_of (np_average [(0, 10, - 1), (0, 10, 1), (0, 8, 1), (0, 8, - 1), (0, 10, - 1)]) = pi / 2"
  by (simp add: np_average_def px_def py_def pz_def phi_of_y_axis_pos)

lemma com_south:
  "phi_of (np_average [(0, - 10, - 1), (0, - 10, 1), (0, - 8, 1), (0, - 8, - 1), (0, - 10, - 1)])
   = - (pi / 2)"
  by (simp add: np_average_def px_def py_def pz_def phi_of_y_axis_neg)

lemma com_north_large:
  "phi_of (np_average [(0, 12, - 1), (0, 12, 1), (0, 9, 1), (0, 9, - 1), (0, 12, - 1)]) = pi / 2"
  by (simp add: np_average_def px_def py_def pz_def phi_of_y_axis_pos)

lemma positive_angle_half_pi: "positive_angle (pi / 2) = pi / 2"
  by (rule positive_angle_id) simp_all

lemma positive_angle_minus_half_pi: "positive_angle (- (pi / 2)) = 3 * pi / 2"
  using positive_angle_neg [of "- (pi / 2)"] by simp

lemma average_north_south:
  "set_average_radial_distance
     [[(0, 10, - 1), (0, 10, 1), (0, 8, 1), (0, 8, - 1), (0, 10, - 1)],
      [(0, - 10, - 1), (0, - 10, 1), (0, - 8, 1), (0, - 8, - 1), (0, - 10, - 1)]] = 46 / 5"
  by (simp add: set_average_radial_distance_def radius_y_axis)

lemma average_north_twice:
  "set_average_radial_distance
     [[(0, 10, - 1), (0, 10, 1), (0, 8, 1), (0, 8, - 1), (0, 10, - 1)],
      [(0, 12, - 1), (0, 12, 1), (0, 9, 1), (0, 9, - 1), (0, 12, - 1)]] = 10"
  by (simp add: set_average_radial_distance_def radius_y_axis)

lemma filtered_north_south:
  "set_filtered_filaments 5 (46 / 5) (deg2rad 360)
     [[(0, 10, - 1), (0, 10, 1), (0, 8, 1), (0, 8, - 1), (0, 10, - 1)],
      [(0, - 10, - 1), (0, - 10, 1), (0, - 8, 1), (0, - 8, - 1), (0, - 10, - 1)]]
   = Inr [[(0, - 10, - 1), (0, - 10, 1), (0, - 8, 1), (0, - 8, - 1), (0, - 10, - 1)],
          [(0, 10, - 1), (0, 10, 1), (0, 8, 1), (0, 8, - 1), (0, 10, - 1)]]"
proof -
  have oN: "overlaps 5 (46 / 5) (deg2rad 360)
              [(0, 10, - 1), (0, 10, 1), (0, 8, 1), (0, 8, - 1), (0, 10, - 1)]"
    by (rule overlaps_full) simp_all
  have oS: "overlaps 5 (46 / 5) (deg2rad 360)
              [(0, - 10, - 1), (0, - 10, 1), (0, - 8, 1), (0, - 8, - 1), (0, - 10, - 1)]"
    by (rule overlaps_full) simp_all
  have p: "\<not> pi \<le> 0" using pi_gt_zero by linarith
  show ?thesis
    by (simp add: set_filtered_filaments_def is_array_def oN oS sorted_zip_def bind_err_def
        reorder_north reorder_south assign_row_def com_north com_south
        positive_angle_half_pi positive_angle_minus_half_pi p)
qed

text \<open>
  Two filaments whose centres of mass are at one angle: the first sort goes on to compare
  the arrays, and the method raises ValueError.
\<close>

lemma filtered_tie:
  "set_filtered_filaments 5 10 (deg2rad 360)
     [[(0, 10, - 1), (0, 10, 1), (0, 8, 1), (0, 8, - 1), (0, 10, - 1)],
      [(0, 12, - 1), (0, 12, 1), (0, 9, 1), (0, 9, - 1), (0, 12, - 1)]]
   = Inl ValueError"
proof -
  have oN: "overlaps 5 10 (deg2rad 360)
              [(0, 10, - 1), (0, 10, 1), (0, 8, 1), (0, 8, - 1), (0, 10, - 1)]"
    by (rule overlaps_full) simp_all
  have oL: "overlaps 5 10 (deg2rad 360)
              [(0, 12, - 1), (0, 12, 1), (0, 9, 1), (0, 9, - 1), (0, 12, - 1)]"
    by (rule overlaps_full) simp_all
  show ?thesis
    by (simp add: set_filtered_filaments_def is_array_def oN oL sorted_zip_def bind_err_def
        com_north com_north_large)
qed

lemma arctan2_range: "- pi < arctan2 y x \<and> arctan2 y x \<le> pi"
proof -
  have b: "- (pi / 2) < arctan (y / x)" "arctan (y / x) < pi / 2"
    by (rule arctan_lbound, rule arctan_ubound)
  consider "x > 0" | "x < 0" "y \<ge> 0" | "x < 0" "y < 0" | "x = 0" "y > 0" | "x = 0" "y < 0"
    | "x = 0" "y = 0"
    by linarith
  then show ?thesis
  proof cases
    case 1
    then have "arctan2 y x = arctan (y / x)" by (simp add: arctan2_def)
    with b pi_gt_zero show ?thesis by linarith
  next
    case 2
    then have "y / x \<le> 0" by (simp add: divide_nonneg_neg)
    then have "arctan (y / x) \<le> 0" by simp
    moreover from 2 have "arctan2 y x = arctan (y / x) + pi" by (simp add: arctan2_def)
    ultimately show ?thesis using b pi_gt_zero by linarith
  next
    case 3
    then have "0 < y / x" by (simp add: divide_neg_neg)
    then have "0 < arctan (y / x)" by simp
    moreover from 3 have "arctan2 y x = arctan (y / x) - pi" by (simp add: arctan2_def)
    ultimately show ?thesis using b pi_gt_zero by linarith
  next
    case 4
    then have "arctan2 y x = pi / 2" by (simp add: arctan2_def)
    with pi_gt_zero show ?thesis by linarith
  next
    case 5
    then have "arctan2 y x = - (pi / 2)" by (simp add: arctan2_def)
    with pi_gt_zero show ?thesis by linarith
  next
    case 6
    then have "arctan2 y x = 0" by (simp add: arctan2_def)
    with pi_gt_zero show ?thesis by linarith
  qed
qed

text \<open>
  C4, as amended: the filaments that \<^verbatim>\<open>_set_filtered_filaments\<close> stores are in ascending
  order of the toroidal angle of their centre of mass, the angle taken as
  \<^verbatim>\<open>np.arctan2\<close> returns it, in \<open>(-\<pi>, \<pi>]\<close>, and not normalised to \<open>[0, 2\<pi>)\<close>.
\<close>

theorem final_order_raw_angle:
  assumes "set_filtered_filaments m a e fils = Inr out"
  shows "sorted (map (\<lambda>fil. phi_of (np_average fil)) out)
         \<and> (\<forall>fil\<in>set out. - pi < phi_of (np_average fil) \<and> phi_of (np_average fil) \<le> pi)"
proof -
  from assms obtain rows where
    "sorted_zip (map (\<lambda>fil. phi_of (np_average fil)) rows) rows = Inr out"
    by (auto simp: set_filtered_filaments_def Let_def bind_err_def split: if_splits sum.splits)
  then have "sorted (map (\<lambda>fil. phi_of (np_average fil)) out)"
    using sorted_zip_sorted by blast
  moreover have "\<forall>fil\<in>set out. - pi < phi_of (np_average fil) \<and> phi_of (np_average fil) \<le> pi"
    by (simp add: phi_of_def arctan2_range)
  ultimately show ?thesis by (rule conjI)
qed

theorem final_order_raw_angle_witness:
  "set_filtered_filaments 5 (46 / 5) (deg2rad 360)
     [[(0, 10, - 1), (0, 10, 1), (0, 8, 1), (0, 8, - 1), (0, 10, - 1)],
      [(0, - 10, - 1), (0, - 10, 1), (0, - 8, 1), (0, - 8, - 1), (0, - 10, - 1)]]
   = Inr [[(0, - 10, - 1), (0, - 10, 1), (0, - 8, 1), (0, - 8, - 1), (0, - 10, - 1)],
          [(0, 10, - 1), (0, 10, 1), (0, 8, 1), (0, 8, - 1), (0, 10, - 1)]]
   \<and> sorted (map (\<lambda>fil. phi_of (np_average fil))
        [[(0, - 10, - 1), (0, - 10, 1), (0, - 8, 1), (0, - 8, - 1), (0, - 10, - 1)],
         [(0, 10, - 1), (0, 10, 1), (0, 8, 1), (0, 8, - 1), (0, 10, - 1)]])
   \<and> phi_of (np_average [(0, - 10, - 1), (0, - 10, 1), (0, - 8, 1), (0, - 8, - 1), (0, - 10, - 1)])
       = - (pi / 2)
   \<and> phi_of (np_average [(0, 10, - 1), (0, 10, 1), (0, 8, 1), (0, 8, - 1), (0, 10, - 1)])
       = pi / 2"
  using final_order_raw_angle [OF filtered_north_south]
  by (simp only: filtered_north_south com_north com_south simp_thms)

text \<open>
  The claim as first stated fails on the squares at 90 and at 270 degrees: the method
  stores the one at 270 degrees first, so the normalised angles of the stored filaments
  are \<open>3\<pi>/2\<close> and then \<open>\<pi>/2\<close>.
\<close>

theorem final_order_counterexample:
  "set_filtered_filaments 5 (46 / 5) (deg2rad 360)
     [[(0, 10, - 1), (0, 10, 1), (0, 8, 1), (0, 8, - 1), (0, 10, - 1)],
      [(0, - 10, - 1), (0, - 10, 1), (0, - 8, 1), (0, - 8, - 1), (0, - 10, - 1)]]
   = Inr [[(0, - 10, - 1), (0, - 10, 1), (0, - 8, 1), (0, - 8, - 1), (0, - 10, - 1)],
          [(0, 10, - 1), (0, 10, 1), (0, 8, 1), (0, 8, - 1), (0, 10, - 1)]]
   \<and> positive_angle (phi_of (np_average
        [(0, - 10, - 1), (0, - 10, 1), (0, - 8, 1), (0, - 8, - 1), (0, - 10, - 1)])) = 3 * pi / 2
   \<and> positive_angle (phi_of (np_average
        [(0, 10, - 1), (0, 10, 1), (0, 8, 1), (0, 8, - 1), (0, 10, - 1)])) = pi / 2
   \<and> \<not> sorted (map (\<lambda>fil. positive_angle (phi_of (np_average fil)))
        [[(0, - 10, - 1), (0, - 10, 1), (0, - 8, 1), (0, - 8, - 1), (0, - 10, - 1)],
         [(0, 10, - 1), (0, 10, 1), (0, 8, 1), (0, 8, - 1), (0, 10, - 1)]])"
proof -
  have "\<not> 3 * pi / 2 \<le> pi / 2" using pi_gt_zero by linarith
  then have ns: "\<not> sorted [3 * pi / 2, pi / 2]" by (simp only: sorted2 simp_thms)
  have m: "map (\<lambda>fil. positive_angle (phi_of (np_average fil)))
        [[(0, - 10, - 1), (0, - 10, 1), (0, - 8, 1), (0, - 8, - 1), (0, - 10, - 1)],
         [(0, 10, - 1), (0, 10, 1), (0, 8, 1), (0, 8, - 1), (0, 10, - 1)]]
       = [3 * pi / 2, pi / 2]"
    by (simp only: list.map com_north com_south
        positive_angle_half_pi positive_angle_minus_half_pi)
  show ?thesis
    by (simp only: filtered_north_south m ns com_north com_south
        positive_angle_half_pi positive_angle_minus_half_pi simp_thms)
qed

end
